theory Spec2Isabelle
  imports Complex_Main
begin

section \<open>JavaScript values\<close>

text \<open>
  A JavaScript number is a finite value, one of the two infinities, or NaN. The code
  compares numbers with \<^verbatim>\<open>===\<close> against \<^verbatim>\<open>Infinity\<close> and \<^verbatim>\<open>-1\<close> and
  orders time stamps with \<^verbatim>\<open><\<close>; both are written out below, NaN included
  (every ordering comparison with NaN is false).
\<close>

datatype number = Fin real | Infinity | NegInfinity | NaN

fun js_lt :: "number \<Rightarrow> number \<Rightarrow> bool" where
  "js_lt (Fin a) (Fin b) = (a < b)"
| "js_lt (Fin a) Infinity = True"
| "js_lt NegInfinity (Fin b) = True"
| "js_lt NegInfinity Infinity = True"
| "js_lt _ _ = False"

definition js_gt :: "number \<Rightarrow> number \<Rightarrow> bool" where
  "js_gt a b = js_lt b a"

definition js_ge :: "number \<Rightarrow> number \<Rightarrow> bool" where
  "js_ge a b = (a \<noteq> NaN \<and> b \<noteq> NaN \<and> \<not> js_lt a b)"

fun js_minus :: "number \<Rightarrow> number \<Rightarrow> number" where
  "js_minus (Fin a) (Fin b) = Fin (a - b)"
| "js_minus NaN _ = NaN"
| "js_minus _ NaN = NaN"
| "js_minus Infinity Infinity = NaN"
| "js_minus NegInfinity NegInfinity = NaN"
| "js_minus Infinity _ = Infinity"
| "js_minus NegInfinity _ = NegInfinity"
| "js_minus (Fin a) Infinity = NegInfinity"
| "js_minus (Fin a) NegInfinity = Infinity"

text \<open>
  Query keys, cached data and errors are plain values: \<^verbatim>\<open>undefined\<close>, or what a
  serializer of strings, numbers, booleans, nulls, arrays and objects accepts.
\<close>

datatype jsvalue =
    JUndefined
  | JNull
  | JBool bool
  | JNum number
  | JStr string
  | JArr "jsvalue list"
  | JObj "(string \<times> jsvalue) list"

section \<open>Data model\<close>

text \<open>
  Modelled from the spec: the types of queries, their state and their options are declared
  in modules that are not among the sources (query.ts, types.ts); the records below follow
  the data model of the spec and the fields that the two source modules read and write.
\<close>

datatype QueryStatus = Idle | Loading | Success | Error

record QueryState =
  data :: jsvalue
  dataUpdatedAt :: number
  error :: jsvalue
  errorUpdatedAt :: number
  fetchFailureCount :: nat
  isFetching :: bool
  isInvalidated :: bool
  status :: QueryStatus
  updatedAt :: number

text \<open>
  The retry policy: \<^verbatim>\<open>false\<close>, \<^verbatim>\<open>true\<close>, a bound, or a predicate (a function,
  kept as a reference).
\<close>

datatype RetryValue = RetryBool bool | RetryCount nat | RetryFn nat

text \<open>
  A property of an options object that may be missing, or be there and hold
  \<^verbatim>\<open>undefined\<close>: an object spread copies the second kind and not the first, while a
  read gives \<^verbatim>\<open>undefined\<close> for both.
\<close>

datatype 'a field = Absent | Undefined | Value 'a

definition field_value :: "'a field \<Rightarrow> 'a option" where
  "field_value x = (case x of Value v \<Rightarrow> Some v | _ \<Rightarrow> None)"

text \<open>
  An options object. Every field is optional in the source; \<open>None\<close> is a field the
  object does not have. Only the fields that the operations below read or write are kept.
  The query function is a reference. \<^verbatim>\<open>staleTime\<close> is the option that the client reads
  after it has spread the call's options over its defaults, so for it a property that holds
  \<^verbatim>\<open>undefined\<close> is told apart from a missing one.
\<close>

record QueryOptions =
  opt_queryKey :: "jsvalue option"
  opt_queryHash :: "string option"
  opt_queryFn :: "nat option"
  opt_retry :: "RetryValue option"
  opt_staleTime :: "number field"
  opt_cacheTime :: "number option"

definition emptyOptions :: QueryOptions where
  "emptyOptions =
     \<lparr>opt_queryKey = None, opt_queryHash = None, opt_queryFn = None, opt_retry = None,
      opt_staleTime = Absent, opt_cacheTime = None\<rparr>"

text \<open>
  Object spread \<^verbatim>\<open>{ ...a, ...b }\<close>: a field of \<open>b\<close> wins over the same field of
  \<open>a\<close>, also when it holds \<^verbatim>\<open>undefined\<close>.
\<close>

definition orElse :: "'a option \<Rightarrow> 'a option \<Rightarrow> 'a option" where
  "orElse x y = (case x of Some v \<Rightarrow> Some v | None \<Rightarrow> y)"

definition overlay :: "'a field \<Rightarrow> 'a field \<Rightarrow> 'a field" where
  "overlay x y = (case x of Absent \<Rightarrow> y | Undefined \<Rightarrow> Undefined | Value v \<Rightarrow> Value v)"

definition spread :: "QueryOptions \<Rightarrow> QueryOptions \<Rightarrow> QueryOptions" where
  "spread a b =
     \<lparr>opt_queryKey = orElse (opt_queryKey b) (opt_queryKey a),
      opt_queryHash = orElse (opt_queryHash b) (opt_queryHash a),
      opt_queryFn = orElse (opt_queryFn b) (opt_queryFn a),
      opt_retry = orElse (opt_retry b) (opt_retry a),
      opt_staleTime = overlay (opt_staleTime b) (opt_staleTime a),
      opt_cacheTime = orElse (opt_cacheTime b) (opt_cacheTime a)\<rparr>"

text \<open>An observer of a query, with the \<^verbatim>\<open>enabled\<close> option it was created with.\<close>

record QueryObserver =
  enabled :: "bool option"

record Query =
  queryKey :: jsvalue
  queryHash :: string
  state :: QueryState
  cacheTime :: number
  options :: QueryOptions
  observers :: "QueryObserver list"

text \<open>The Query Cache holds its queries in insertion order.\<close>

type_synonym QueryCache = "Query list"

record DefaultOptions =
  dflt_queries :: "QueryOptions option"

record QueryClient =
  queryCache :: QueryCache
  defaultOptions :: DefaultOptions

text \<open>
  The helpers of the utilities module that work on the structure of a key are parameters
  of the operations that reach them: the key hasher and the partial comparison of keys.
\<close>

record Utils =
  hashQueryKey :: "jsvalue \<Rightarrow> string"
  partialMatchKey :: "jsvalue \<Rightarrow> jsvalue \<Rightarrow> bool"

section \<open>Query and Query Cache\<close>

text \<open>
  The Query class (query.ts) and the Query Cache class (queryCache.ts) are not among the
  sources; their methods that the client and the hydration call are modelled here.
\<close>

text \<open>
  Modelled from the spec: \<open>setState\<close> of the Query class replaces the state of the
  query by the given one.
\<close>

definition setState :: "QueryState \<Rightarrow> Query \<Rightarrow> Query" where
  "setState s q = q\<lparr>state := s\<rparr>"

text \<open>
  Modelled from the spec: \<open>invalidate\<close> of the Query class sets \<open>isInvalidated\<close> and
  leaves the rest of the state as it is.
\<close>

definition invalidate :: "Query \<Rightarrow> Query" where
  "invalidate q = q\<lparr>state := (state q)\<lparr>isInvalidated := True\<rparr>\<rparr>"

text \<open>
  Modelled from the spec: \<open>isStaleByTime\<close> of the Query class. A query is stale when it
  is invalidated or \<open>now - dataUpdatedAt \<ge> staleTime\<close>, with \<open>staleTime\<close> 0 when none
  is given. The first argument is the time of the call.
\<close>

definition isStaleByTime :: "number \<Rightarrow> Query \<Rightarrow> number option \<Rightarrow> bool" where
  "isStaleByTime now q staleTime =
     (isInvalidated (state q) \<or>
      js_ge (js_minus now (dataUpdatedAt (state q)))
        (case staleTime of None \<Rightarrow> Fin 0 | Some t \<Rightarrow> t))"

text \<open>
  Modelled from the spec: \<open>isStale\<close> of the Query class, staleness under the
  \<open>staleTime\<close> of the query's own options.
\<close>

definition isStale :: "number \<Rightarrow> Query \<Rightarrow> bool" where
  "isStale now q = isStaleByTime now q (field_value (opt_staleTime (options q)))"

text \<open>
  Modelled from the spec: \<open>isActive\<close> of the Query class; a query is active when it has
  an observer whose \<^verbatim>\<open>enabled\<close> is not \<^verbatim>\<open>false\<close>.
\<close>

definition isActive :: "Query \<Rightarrow> bool" where
  "isActive q = list_ex (\<lambda>ob. enabled ob \<noteq> Some False) (observers q)"

text \<open>
  Modelled from the spec: the state of a query that was never fetched (status idle, no
  data, time stamps 0).
\<close>

definition initialState :: QueryState where
  "initialState =
     \<lparr>data = JUndefined, dataUpdatedAt = Fin 0, error = JUndefined, errorUpdatedAt = Fin 0,
      fetchFailureCount = 0, isFetching = False, isInvalidated = False, status = Idle,
      updatedAt = Fin 0\<rparr>"

text \<open>
  Modelled from the spec: \<open>getAll\<close> of the Query Cache returns its queries.
\<close>

definition getAll :: "QueryCache \<Rightarrow> Query list" where
  "getAll cache = cache"

text \<open>
  Modelled from the spec: \<open>get\<close> of the Query Cache returns the query stored under a
  hash, if there is one.
\<close>

definition get :: "QueryCache \<Rightarrow> string \<Rightarrow> Query option" where
  "get cache h = List.find (\<lambda>q. queryHash q = h) cache"

text \<open>
  A method call on the query object that \<open>get\<close> returned changes that object inside the
  cache: the first query with the hash.
\<close>

fun update_query :: "string \<Rightarrow> (Query \<Rightarrow> Query) \<Rightarrow> QueryCache \<Rightarrow> QueryCache" where
  "update_query h f [] = []"
| "update_query h f (q # qs) = (if queryHash q = h then f q # qs else q # update_query h f qs)"

text \<open>
  Modelled from the spec: \<open>build\<close> of the Query Cache, which \<open>restore\<close> calls with a
  state. If a query exists for the hash of the options (computed from the key by the key
  hasher when the options carry none) it is returned with its options updated; else one
  is created with the given state, the retention time of the options (default 300000 ms)
  and no observer, and inserted.
\<close>

definition build ::
  "Utils \<Rightarrow> QueryCache \<Rightarrow> QueryOptions \<Rightarrow> QueryState option \<Rightarrow> Query \<times> QueryCache" where
  "build u cache opts st =
     (let key = (case opt_queryKey opts of Some k \<Rightarrow> k | None \<Rightarrow> JUndefined);
          h = (case opt_queryHash opts of Some h \<Rightarrow> h | None \<Rightarrow> hashQueryKey u key)
      in case get cache h of
           Some q \<Rightarrow> (q\<lparr>options := opts\<rparr>, update_query h (\<lambda>q. q\<lparr>options := opts\<rparr>) cache)
         | None \<Rightarrow>
             (let q = \<lparr>queryKey = key, queryHash = h,
                       state = (case st of Some s \<Rightarrow> s | None \<Rightarrow> initialState),
                       cacheTime = (case opt_cacheTime opts of Some c \<Rightarrow> c | None \<Rightarrow> Fin 300000),
                       options = opts, observers = []\<rparr>
              in (q, cache @ [q])))"

section \<open>The client facade (queryClient.ts)\<close>

definition getQueryCache :: "QueryClient \<Rightarrow> QueryCache" where
  "getQueryCache client = queryCache client"

definition buildQuery :: "Utils \<Rightarrow> QueryClient \<Rightarrow> QueryOptions \<Rightarrow> Query \<times> QueryClient" where
  "buildQuery u client opts =
     (case build u (queryCache client) opts None of
        (q, cache) \<Rightarrow> (q, client\<lparr>queryCache := cache\<rparr>))"

definition restoreQuery ::
  "Utils \<Rightarrow> QueryClient \<Rightarrow> QueryOptions \<Rightarrow> QueryState \<Rightarrow> Query \<times> QueryClient" where
  "restoreQuery u client opts st =
     (case build u (queryCache client) opts (Some st) of
        (q, cache) \<Rightarrow> (q, client\<lparr>queryCache := cache\<rparr>))"

definition defaultQueryOptions :: "QueryClient \<Rightarrow> QueryOptions \<Rightarrow> QueryOptions" where
  "defaultQueryOptions client opts =
     spread (case dflt_queries (defaultOptions client) of None \<Rightarrow> emptyOptions | Some d \<Rightarrow> d)
       opts"

section \<open>Hydration (hydration.ts)\<close>

record DehydratedQueryConfig =
  cfg_cacheTime :: number

record DehydratedQuery =
  dq_queryKey :: jsvalue
  dq_queryHash :: string
  dq_state :: QueryState
  dq_config :: DehydratedQueryConfig

record DehydratedState =
  queries :: "DehydratedQuery list"

record DehydrateOptions =
  shouldDehydrate :: "(Query \<Rightarrow> bool) option"

record HydrateOptions =
  hydrate_defaultOptions :: "QueryOptions option"

definition serializePositiveNumber :: "number \<Rightarrow> number" where
  "serializePositiveNumber v = (if v = Infinity then Fin (- 1) else v)"

definition deserializePositiveNumber :: "number \<Rightarrow> number" where
  "deserializePositiveNumber v = (if v = Fin (- 1) then Infinity else v)"

definition dehydrateQuery :: "Query \<Rightarrow> DehydratedQuery" where
  "dehydrateQuery query =
     \<lparr>dq_queryKey = queryKey query,
      dq_queryHash = queryHash query,
      dq_state = state query,
      dq_config = \<lparr>cfg_cacheTime = serializePositiveNumber (cacheTime query)\<rparr>\<rparr>"

definition defaultShouldDehydrate :: "Query \<Rightarrow> bool" where
  "defaultShouldDehydrate query = (status (state query) = Success)"

text \<open>
  \<open>dehydrate\<close>: the \<^verbatim>\<open>forEach\<close> over \<open>getAll\<close> pushes onto the result array, a left
  fold that appends.
\<close>

definition dehydrate :: "QueryClient \<Rightarrow> DehydrateOptions option \<Rightarrow> DehydratedState" where
  "dehydrate client opts =
     (let opts' = (case opts of None \<Rightarrow> \<lparr>shouldDehydrate = None\<rparr> | Some x \<Rightarrow> x);
          should = (case shouldDehydrate opts' of None \<Rightarrow> defaultShouldDehydrate | Some f \<Rightarrow> f)
      in \<lparr>queries =
            foldl (\<lambda>acc query. if should query then acc @ [dehydrateQuery query] else acc) []
              (getAll (getQueryCache client))\<rparr>)"

text \<open>
  The second argument of \<open>hydrate\<close> has the type \<^verbatim>\<open>unknown\<close>. An object is given by
  its \<^verbatim>\<open>queries\<close> field: \<open>None\<close> when the object has none (an array, an empty object),
  else the array of dehydrated queries the cast to \<^verbatim>\<open>DehydratedState\<close> stands for.
\<close>

datatype unknown =
    JsUndefined
  | JsNull
  | JsBoolean bool
  | JsNumber number
  | JsString string
  | JsFunction
  | JsSymbol
  | JsBigInt int
  | JsObject "DehydratedQuery list option"

fun typeof :: "unknown \<Rightarrow> string" where
  "typeof JsUndefined = ''undefined''"
| "typeof JsNull = ''object''"
| "typeof (JsBoolean b) = ''boolean''"
| "typeof (JsNumber n) = ''number''"
| "typeof (JsString s) = ''string''"
| "typeof JsFunction = ''function''"
| "typeof JsSymbol = ''symbol''"
| "typeof (JsBigInt i) = ''bigint''"
| "typeof (JsObject qs) = ''object''"

text \<open>The body of the \<^verbatim>\<open>forEach\<close> of \<open>hydrate\<close>, for one dehydrated query.\<close>

definition hydrateQuery ::
  "Utils \<Rightarrow> QueryOptions \<Rightarrow> DehydratedQuery \<Rightarrow> QueryClient \<Rightarrow> QueryClient" where
  "hydrateQuery u dflt dq client =
     (case get (getQueryCache client) (dq_queryHash dq) of
        Some query \<Rightarrow>
          if js_lt (updatedAt (state query)) (updatedAt (dq_state dq))
          then client\<lparr>queryCache :=
                 update_query (dq_queryHash dq) (setState (dq_state dq)) (queryCache client)\<rparr>
          else client
      | None \<Rightarrow>
          snd (restoreQuery u client
                 (dflt\<lparr>opt_queryKey := Some (dq_queryKey dq),
                       opt_queryHash := Some (dq_queryHash dq),
                       opt_cacheTime :=
                         Some (deserializePositiveNumber (cfg_cacheTime (dq_config dq)))\<rparr>)
                 (dq_state dq)))"

definition hydrate ::
  "Utils \<Rightarrow> QueryClient \<Rightarrow> unknown \<Rightarrow> HydrateOptions option \<Rightarrow> QueryClient" where
  "hydrate u client dehydratedState opts =
     (if typeof dehydratedState \<noteq> ''object'' \<or> dehydratedState = JsNull then client
      else
        (let dflt = (case opts of
                       None \<Rightarrow> emptyOptions
                     | Some x \<Rightarrow>
                         (case hydrate_defaultOptions x of None \<Rightarrow> emptyOptions | Some d \<Rightarrow> d));
             qs = (case dehydratedState of JsObject (Some qs) \<Rightarrow> qs | _ \<Rightarrow> [])
         in fold (hydrateQuery u dflt) qs client))"

section \<open>Filters (utils.ts, queryCache.ts)\<close>

text \<open>
  Modelled from the spec: the type of the filters is declared in a module that is not among
  the sources. These are the filters of \<open>find\<close>, \<open>findAll\<close>, \<open>refetchQueries\<close> and
  \<open>invalidateQueries\<close>, after
  \<^verbatim>\<open>parseFilterArgs\<close> has put a key given by position into the \<^verbatim>\<open>queryKey\<close> field.
  \<^verbatim>\<open>refetchActive\<close> and \<^verbatim>\<open>refetchInactive\<close> are the two fields that the filters of
  \<open>invalidateQueries\<close> add.
\<close>

record QueryFilters =
  f_queryKey :: "jsvalue option"
  f_exact :: "bool option"
  f_active :: "bool option"
  f_inactive :: "bool option"
  f_stale :: "bool option"
  f_fetching :: "bool option"
  f_predicate :: "(Query \<Rightarrow> bool) option"
  f_refetchActive :: "bool option"
  f_refetchInactive :: "bool option"

definition emptyFilters :: QueryFilters where
  "emptyFilters =
     \<lparr>f_queryKey = None, f_exact = None, f_active = None, f_inactive = None, f_stale = None,
      f_fetching = None, f_predicate = None, f_refetchActive = None, f_refetchInactive = None\<rparr>"

text \<open>
  Modelled from the spec: \<open>matchQuery\<close> of the utilities module is not among the
  sources. The filters are combined with AND, each one constraining the query only when it
  is given: \<^verbatim>\<open>exact\<close> compares the key through its hash, otherwise the key is matched
  partially; \<^verbatim>\<open>active\<close> and \<^verbatim>\<open>inactive\<close> test whether the query has an observer
  with \<^verbatim>\<open>enabled !== false\<close>; \<^verbatim>\<open>stale\<close>, \<^verbatim>\<open>fetching\<close> and \<^verbatim>\<open>predicate\<close> test
  the query as their names say.
\<close>

definition matchQuery :: "Utils \<Rightarrow> number \<Rightarrow> QueryFilters \<Rightarrow> Query \<Rightarrow> bool" where
  "matchQuery u now f q =
     ((case f_queryKey f of
         None \<Rightarrow> True
       | Some k \<Rightarrow>
           if f_exact f = Some True then queryHash q = hashQueryKey u k
           else partialMatchKey u (queryKey q) k)
      \<and> (case f_active f of None \<Rightarrow> True | Some b \<Rightarrow> isActive q = b)
      \<and> (case f_inactive f of None \<Rightarrow> True | Some b \<Rightarrow> (\<not> isActive q) = b)
      \<and> (case f_stale f of None \<Rightarrow> True | Some b \<Rightarrow> isStale now q = b)
      \<and> (case f_fetching f of None \<Rightarrow> True | Some b \<Rightarrow> isFetching (state q) = b)
      \<and> (case f_predicate f of None \<Rightarrow> True | Some p \<Rightarrow> p q))"

text \<open>
  Modelled from the spec: \<open>find\<close> of the Query Cache returns the first query, in cache
  order, that matches the filters.
\<close>

definition find :: "Utils \<Rightarrow> number \<Rightarrow> QueryCache \<Rightarrow> QueryFilters \<Rightarrow> Query option" where
  "find u now cache f = List.find (matchQuery u now f) cache"

text \<open>
  Modelled from the spec: \<open>findAll\<close> of the Query Cache returns every query that matches
  the filters, in cache order.
\<close>

definition findAll :: "Utils \<Rightarrow> number \<Rightarrow> QueryCache \<Rightarrow> QueryFilters \<Rightarrow> Query list" where
  "findAll u now cache f = filter (matchQuery u now f) cache"

section \<open>Promises and the Notify Manager\<close>

text \<open>
  A promise is given by the way it ends: fulfilled with a value, rejected with a reason, or
  never settled. \<^verbatim>\<open>then\<close> and \<^verbatim>\<open>catch\<close> are those of callbacks that return a plain
  value and do not throw.
\<close>

datatype 'a promise = Fulfilled 'a | Rejected jsvalue | Pending

definition promise_then :: "('a \<Rightarrow> 'b) \<Rightarrow> 'a promise \<Rightarrow> 'b promise" where
  "promise_then f p =
     (case p of Fulfilled v \<Rightarrow> Fulfilled (f v) | Rejected e \<Rightarrow> Rejected e | Pending \<Rightarrow> Pending)"

definition promise_catch :: "(jsvalue \<Rightarrow> 'a) \<Rightarrow> 'a promise \<Rightarrow> 'a promise" where
  "promise_catch f p =
     (case p of Fulfilled v \<Rightarrow> Fulfilled v | Rejected e \<Rightarrow> Fulfilled (f e) | Pending \<Rightarrow> Pending)"

text \<open>
  Modelled from the spec: \<open>noop\<close> of the utilities module does nothing and returns
  \<^verbatim>\<open>undefined\<close>.
\<close>

definition noop :: "'a \<Rightarrow> jsvalue" where
  "noop x = JUndefined"

text \<open>
  What an operation does to queries, in the order of the calls: \<^verbatim>\<open>query.invalidate()\<close>
  and \<^verbatim>\<open>query.fetch()\<close> on the query with the given hash, and the calls made inside
  one \<^verbatim>\<open>notifyManager.batch\<close>. The fetch itself belongs to the Query class: the call is
  recorded, the transitions of the query that follow it are not applied here.
\<close>

datatype effect = Invalidate string | Fetch string | Batch "effect list"

text \<open>
  Modelled from the spec: \<open>batch\<close> of the Notify Manager (notifyManager.ts is not among
  the sources) opens a batch, runs the function, closes the batch and returns what the
  function returned.
\<close>

definition batch :: "('s \<Rightarrow> 'a \<times> 's \<times> effect list) \<Rightarrow> 's \<Rightarrow> 'a \<times> 's \<times> effect list" where
  "batch fn s = (case fn s of (r, s', es) \<Rightarrow> (r, s', [Batch es]))"

section \<open>Fetching through the client (queryClient.ts)\<close>

text \<open>
  The two \<^verbatim>\<open>return\<close> statements of \<open>fetchQueryData\<close>: a promise resolved with a value
  at hand, or the promise of \<^verbatim>\<open>query.fetch(defaultedOptions)\<close>.
\<close>

datatype FetchReturn = PromiseResolve jsvalue | QueryFetch Query QueryOptions

text \<open>
  \<open>fetchOptions\<close> is the head of \<open>fetchQueryData\<close>: the options parsed from the
  arguments get \<^verbatim>\<open>retry = false\<close> when they have no \<^verbatim>\<open>retry\<close>, and are then laid
  over the default options of the client.
\<close>

definition fetchOptions :: "QueryClient \<Rightarrow> QueryOptions \<Rightarrow> QueryOptions" where
  "fetchOptions client parsedOptions =
     defaultQueryOptions client
       (if opt_retry parsedOptions = None then parsedOptions\<lparr>opt_retry := Some (RetryBool False)\<rparr>
        else parsedOptions)"

definition fetchQueryData ::
  "Utils \<Rightarrow> number \<Rightarrow> QueryClient \<Rightarrow> QueryOptions \<Rightarrow> FetchReturn \<times> QueryClient" where
  "fetchQueryData u now client parsedOptions =
     (let defaultedOptions = fetchOptions client parsedOptions
      in case find u now (queryCache client)
                (emptyFilters\<lparr>f_queryKey := opt_queryKey defaultedOptions\<rparr>) of
           None \<Rightarrow>
             (case buildQuery u client defaultedOptions of
                (query, client') \<Rightarrow> (QueryFetch query defaultedOptions, client'))
         | Some query \<Rightarrow>
             if \<not> isStaleByTime now query (field_value (opt_staleTime defaultedOptions))
             then (PromiseResolve (data (state query)), client)
             else (QueryFetch query defaultedOptions, client))"

text \<open>
  How the promise that \<open>fetchQueryData\<close> returns ends. The end of the promise of
  \<^verbatim>\<open>query.fetch\<close> is decided by the query function and the retryer: it is the
  parameter \<open>queryFetch\<close>.
\<close>

definition settle :: "(Query \<Rightarrow> QueryOptions \<Rightarrow> jsvalue promise) \<Rightarrow> FetchReturn \<Rightarrow> jsvalue promise" where
  "settle queryFetch r =
     (case r of PromiseResolve v \<Rightarrow> Fulfilled v | QueryFetch q opts \<Rightarrow> queryFetch q opts)"

text \<open>The options handed to \<^verbatim>\<open>query.fetch\<close>, when \<open>fetchQueryData\<close> calls it.\<close>

definition fetchedWith :: "FetchReturn \<Rightarrow> QueryOptions option" where
  "fetchedWith r = (case r of PromiseResolve v \<Rightarrow> None | QueryFetch q opts \<Rightarrow> Some opts)"

definition prefetchQuery ::
  "Utils \<Rightarrow> (Query \<Rightarrow> QueryOptions \<Rightarrow> jsvalue promise) \<Rightarrow> number \<Rightarrow> QueryClient \<Rightarrow> QueryOptions
     \<Rightarrow> jsvalue promise \<times> QueryClient" where
  "prefetchQuery u queryFetch now client parsedOptions =
     (case fetchQueryData u now client parsedOptions of
        (r, client') \<Rightarrow> (promise_catch noop (promise_then noop (settle queryFetch r)), client'))"

section \<open>Refetching and invalidating (queryClient.ts)\<close>

record RefetchOptions =
  throwOnError :: "bool option"

text \<open>
  The promise that \<open>refetchQueries\<close> returns is \<^verbatim>\<open>Promise.all\<close> of the fetches of the
  queries with the hashes \<open>awaits\<close>, followed by \<^verbatim>\<open>then(noop)\<close>, and by
  \<^verbatim>\<open>catch(noop)\<close> when \<open>catches\<close> holds.
\<close>

record RefetchPromise =
  awaits :: "string list"
  catches :: bool

definition refetchQueries ::
  "Utils \<Rightarrow> number \<Rightarrow> QueryClient \<Rightarrow> QueryFilters \<Rightarrow> RefetchOptions option
     \<Rightarrow> RefetchPromise \<times> QueryClient \<times> effect list" where
  "refetchQueries u now client filters opts =
     (case batch (\<lambda>c. (map queryHash (findAll u now (queryCache c) filters), c,
                       map (\<lambda>query. Fetch (queryHash query))
                         (findAll u now (queryCache c) filters))) client of
        (promises, client', es) \<Rightarrow>
          (\<lparr>awaits = promises,
            catches = (case opts of
                         None \<Rightarrow> True
                       | Some x \<Rightarrow> (case throwOnError x of None \<Rightarrow> True | Some t \<Rightarrow> \<not> t))\<rparr>,
           client', es))"

text \<open>
  \<open>invalidateQueries\<close>: inside one batch, every query that \<open>findAll\<close> returns for the
  filters is invalidated, then \<open>refetchQueries\<close> runs with the filters in which
  \<^verbatim>\<open>active\<close> and \<^verbatim>\<open>inactive\<close> are replaced.
\<close>

definition invalidateQueries ::
  "Utils \<Rightarrow> number \<Rightarrow> QueryClient \<Rightarrow> QueryFilters \<Rightarrow> RefetchOptions option
     \<Rightarrow> RefetchPromise \<times> QueryClient \<times> effect list" where
  "invalidateQueries u now client filters opts =
     (let refetchFilters =
            filters\<lparr>f_active := Some (case f_refetchActive filters of None \<Rightarrow> True | Some b \<Rightarrow> b),
                    f_inactive := Some (case f_refetchInactive filters of None \<Rightarrow> False | Some b \<Rightarrow> b)\<rparr>
      in batch
           (\<lambda>c. let matched = findAll u now (queryCache c) filters;
                     c' = c\<lparr>queryCache :=
                            map (\<lambda>query. if query \<in> set matched then invalidate query else query)
                              (queryCache c)\<rparr>
                 in case refetchQueries u now c' refetchFilters opts of
                      (promise, c'', es) \<Rightarrow>
                        (promise, c'', map (\<lambda>query. Invalidate (queryHash query)) matched @ es))
           client)"

section \<open>The mounted clients (queryClient.ts)\<close>

text \<open>
  The list of mounted clients is one per process, and \<^verbatim>\<open>indexOf\<close> and \<open>uniq\<close> compare
  objects by identity. Here clients and caches are references, and the two private fields
  of a client that hold its caches are read from a store. \<open>handlerInits\<close> records the
  calls of \<^verbatim>\<open>initFocusHandler(onFocus)\<close> and \<^verbatim>\<open>initOnlineHandler(onOnline)\<close>.
\<close>

type_synonym ref = nat

datatype handler_init = InitFocusHandler | InitOnlineHandler

record Registry =
  mountedClients :: "ref list"
  queryCacheOf :: "ref \<Rightarrow> ref"
  mutationCacheOf :: "ref \<Rightarrow> ref"
  handlerInits :: "handler_init list"

text \<open>\<^verbatim>\<open>Array.prototype.indexOf\<close>: the first index of the element, or -1.\<close>

fun indexOf :: "'a \<Rightarrow> 'a list \<Rightarrow> int" where
  "indexOf x [] = - 1"
| "indexOf x (y # ys) =
     (if x = y then 0 else (let i = indexOf x ys in if i = - 1 then - 1 else i + 1))"

text \<open>\<^verbatim>\<open>splice(index, count)\<close> for an index that is not negative.\<close>

definition splice :: "'a list \<Rightarrow> int \<Rightarrow> nat \<Rightarrow> 'a list" where
  "splice xs i n = take (nat i) xs @ drop (nat i + n) xs"

definition mount :: "ref \<Rightarrow> Registry \<Rightarrow> Registry" where
  "mount this r =
     r\<lparr>mountedClients := mountedClients r @ [this],
       handlerInits := handlerInits r @ [InitFocusHandler, InitOnlineHandler]\<rparr>"

definition unmount :: "ref \<Rightarrow> Registry \<Rightarrow> Registry" where
  "unmount this r =
     (let index = indexOf this (mountedClients r)
      in if index > - 1 then r\<lparr>mountedClients := splice (mountedClients r) index 1\<rparr> else r)"

text \<open>
  Modelled from the spec: \<open>uniq\<close> of the utilities module is not among the sources. It
  removes duplicates; the first occurrence of each element stays.
\<close>

definition uniq :: "'a list \<Rightarrow> 'a list" where
  "uniq xs = rev (remdups (rev xs))"

definition getQueryCaches :: "Registry \<Rightarrow> ref list" where
  "getQueryCaches r = uniq (map (queryCacheOf r) (mountedClients r))"

definition getMutationCaches :: "Registry \<Rightarrow> ref list" where
  "getMutationCaches r = uniq (map (mutationCacheOf r) (mountedClients r))"

text \<open>
  The calls that the focus and online callbacks make on caches. The first argument of
  \<open>onFocus\<close> and \<open>onOnline\<close> is what \<^verbatim>\<open>isVisibleAndOnline()\<close> returns at the call.
\<close>

datatype cache_call =
    MutationCache_onFocus ref
  | QueryCache_onFocus ref
  | MutationCache_onOnline ref
  | QueryCache_onOnline ref

definition onFocus :: "bool \<Rightarrow> Registry \<Rightarrow> cache_call list" where
  "onFocus isVisibleAndOnline r =
     (if isVisibleAndOnline
      then map MutationCache_onFocus (getMutationCaches r) @ map QueryCache_onFocus (getQueryCaches r)
      else [])"

definition onOnline :: "bool \<Rightarrow> Registry \<Rightarrow> cache_call list" where
  "onOnline isVisibleAndOnline r =
     (if isVisibleAndOnline
      then map MutationCache_onOnline (getMutationCaches r) @ map QueryCache_onOnline (getQueryCaches r)
      else [])"

section \<open>Sample values\<close>

text \<open>
  Concrete utilities, states, queries and clients, for the instances of the theorems.
  \<open>example_prefix_utils\<close> matches an array key against the array keys of which it is a
  prefix, as the partial matching of the spec does.
\<close>

definition example_utils :: Utils where
  "example_utils =
     \<lparr>hashQueryKey = (\<lambda>k. case k of JStr s \<Rightarrow> s | _ \<Rightarrow> ''''),
      partialMatchKey = (\<lambda>a b. a = b)\<rparr>"


definition example_state :: "QueryStatus \<Rightarrow> real \<Rightarrow> jsvalue \<Rightarrow> QueryState" where
  "example_state st t d =
     \<lparr>data = d, dataUpdatedAt = Fin t, error = JUndefined, errorUpdatedAt = Fin 0,
      fetchFailureCount = 0, isFetching = False, isInvalidated = False, status = st,
      updatedAt = Fin t\<rparr>"

definition example_query :: "string \<Rightarrow> QueryState \<Rightarrow> number \<Rightarrow> QueryObserver list \<Rightarrow> Query" where
  "example_query k s c obs =
     \<lparr>queryKey = JStr k, queryHash = k, state = s, cacheTime = c, options = emptyOptions,
      observers = obs\<rparr>"

definition example_client :: "Query list \<Rightarrow> QueryClient" where
  "example_client qs = \<lparr>queryCache = qs, defaultOptions = \<lparr>dflt_queries = None\<rparr>\<rparr>"

definition example_observer :: "bool option \<Rightarrow> QueryObserver" where
  "example_observer e = \<lparr>enabled = e\<rparr>"

definition example_registry :: Registry where
  "example_registry =
     \<lparr>mountedClients = [], queryCacheOf = (\<lambda>c. if c = 3 then 10 else 10 + c),
      mutationCacheOf = (\<lambda>c. 20 + c), handlerInits = []\<rparr>"






section \<open>Number comparison and cache lookup\<close>

lemma js_lt_irrefl: "\<not> js_lt a a"
  by (cases a) simp_all

lemma js_ge_not_lt: "js_ge a b \<Longrightarrow> \<not> js_lt a b"
  by (simp add: js_ge_def)

lemma dehydrate_loop:
  "foldl (\<lambda>acc q. if P q then acc @ [f q] else acc) acc xs = acc @ map f (filter P xs)"
  by (induction xs arbitrary: acc) simp_all

lemma get_Nil: "get [] h = None"
  by (simp add: get_def)

lemma get_Cons: "get (q # qs) h = (if queryHash q = h then Some q else get qs h)"
  by (simp add: get_def)

lemma get_append:
  "get (c @ [q]) h = (case get c h of Some x \<Rightarrow> Some x | None \<Rightarrow> if queryHash q = h then Some q else None)"
  by (induction c) (simp_all add: get_Nil get_Cons)

lemma get_update_query:
  assumes "\<And>q. queryHash (f q) = queryHash q"
  shows "get (update_query h f c) h' = (if h' = h then map_option f (get c h) else get c h')"
  using assms by (induction c) (auto simp: get_Nil get_Cons)

lemma queryHash_setState: "queryHash (setState s q) = queryHash q"
  by (simp add: setState_def)

section \<open>Hydration merges by freshness\<close>

lemma get_hydrateQuery_other:
  assumes "dq_queryHash dq \<noteq> h"
  shows "get (queryCache (hydrateQuery u dflt dq client)) h = get (queryCache client) h"
  using assms
  by (auto simp: hydrateQuery_def getQueryCache_def restoreQuery_def build_def Let_def
      get_update_query queryHash_setState get_append split: option.splits prod.splits)

lemma get_hydrateQuery_existing:
  assumes "get (queryCache client) (dq_queryHash dq) = Some existing"
  shows "get (queryCache (hydrateQuery u dflt dq client)) (dq_queryHash dq) =
    Some (if js_lt (updatedAt (state existing)) (updatedAt (dq_state dq))
          then existing\<lparr>state := dq_state dq\<rparr> else existing)"
  using assms
  by (auto simp: hydrateQuery_def getQueryCache_def get_update_query queryHash_setState setState_def)

lemma hydrate_fold_settled:
  assumes "get (queryCache c) (dq_queryHash dq) = Some q"
    and "\<not> js_lt (updatedAt (state q)) (updatedAt (dq_state dq))"
    and "\<forall>d\<in>set qs. dq_queryHash d = dq_queryHash dq \<longrightarrow> d = dq"
  shows "get (queryCache (fold (hydrateQuery u dflt) qs c)) (dq_queryHash dq) = Some q"
  using assms
proof (induction qs arbitrary: c)
  case Nil
  then show ?case by simp
next
  case (Cons d qs)
  have step: "get (queryCache (hydrateQuery u dflt d c)) (dq_queryHash dq) = Some q"
  proof (cases "dq_queryHash d = dq_queryHash dq")
    case True
    with Cons.prems(3) have "d = dq" by simp
    then show ?thesis
      using get_hydrateQuery_existing [OF Cons.prems(1), of u dflt] Cons.prems(2) by simp
  next
    case False
    then show ?thesis using Cons.prems(1) by (simp add: get_hydrateQuery_other)
  qed
  have rest: "\<forall>d\<in>set qs. dq_queryHash d = dq_queryHash dq \<longrightarrow> d = dq"
    using Cons.prems(3) by simp
  have "get (queryCache (fold (hydrateQuery u dflt) qs (hydrateQuery u dflt d c)))
          (dq_queryHash dq) = Some q"
    by (rule Cons.IH [OF step Cons.prems(2) rest])
  then show ?case by simp
qed

lemma hydrate_fold_existing:
  assumes "get (queryCache c) (dq_queryHash dq) = Some q"
    and "dq \<in> set qs"
    and "\<forall>d\<in>set qs. dq_queryHash d = dq_queryHash dq \<longrightarrow> d = dq"
  shows "get (queryCache (fold (hydrateQuery u dflt) qs c)) (dq_queryHash dq) =
    Some (if js_lt (updatedAt (state q)) (updatedAt (dq_state dq))
          then q\<lparr>state := dq_state dq\<rparr> else q)"
  using assms
proof (induction qs arbitrary: c)
  case Nil
  then show ?case by simp
next
  case (Cons d qs)
  let ?q' = "if js_lt (updatedAt (state q)) (updatedAt (dq_state dq))
             then q\<lparr>state := dq_state dq\<rparr> else q"
  have rest: "\<forall>d\<in>set qs. dq_queryHash d = dq_queryHash dq \<longrightarrow> d = dq"
    using Cons.prems(3) by simp
  show ?case
  proof (cases "d = dq")
    case True
    have step: "get (queryCache (hydrateQuery u dflt dq c)) (dq_queryHash dq) = Some ?q'"
      by (rule get_hydrateQuery_existing [OF Cons.prems(1)])
    have fixed: "\<not> js_lt (updatedAt (state ?q')) (updatedAt (dq_state dq))"
      by (simp add: js_lt_irrefl)
    have "get (queryCache (fold (hydrateQuery u dflt) qs (hydrateQuery u dflt dq c)))
            (dq_queryHash dq) = Some ?q'"
      by (rule hydrate_fold_settled [OF step fixed rest])
    with True show ?thesis by simp
  next
    case False
    with Cons.prems(3) have other: "dq_queryHash d \<noteq> dq_queryHash dq" by auto
    from False Cons.prems(2) have mem: "dq \<in> set qs" by auto
    have step: "get (queryCache (hydrateQuery u dflt d c)) (dq_queryHash dq) = Some q"
      using other Cons.prems(1) by (simp add: get_hydrateQuery_other)
    have "get (queryCache (fold (hydrateQuery u dflt) qs (hydrateQuery u dflt d c)))
            (dq_queryHash dq) = Some ?q'"
      by (rule Cons.IH [OF step mem rest])
    then show ?thesis by simp
  qed
qed

lemma hydrate_fold_general:
  assumes "get (queryCache c) h = Some q"
  shows "get (queryCache (fold (hydrateQuery u dflt) qs c)) h =
    Some (q\<lparr>state :=
            fold (\<lambda>d s. if js_lt (updatedAt s) (updatedAt (dq_state d)) then dq_state d else s)
              (filter (\<lambda>d. dq_queryHash d = h) qs) (state q)\<rparr>)"
  using assms
proof (induction qs arbitrary: c q)
  case Nil
  then show ?case by simp
next
  case (Cons d qs)
  let ?F = "\<lambda>d s. if js_lt (updatedAt s) (updatedAt (dq_state d)) then dq_state d else s"
  show ?case
  proof (cases "dq_queryHash d = h")
    case True
    let ?q1 = "if js_lt (updatedAt (state q)) (updatedAt (dq_state d))
               then q\<lparr>state := dq_state d\<rparr> else q"
    from Cons.prems True have "get (queryCache c) (dq_queryHash d) = Some q" by simp
    from get_hydrateQuery_existing [OF this, of u dflt] True
    have step: "get (queryCache (hydrateQuery u dflt d c)) h = Some ?q1" by simp
    have s1: "state ?q1 = ?F d (state q)" by simp
    have u1: "?q1\<lparr>state := z\<rparr> = q\<lparr>state := z\<rparr>" for z by simp
    from Cons.IH [OF step] True show ?thesis
      unfolding u1 s1 by simp
  next
    case False
    with Cons.prems have step: "get (queryCache (hydrateQuery u dflt d c)) h = Some q"
      by (simp add: get_hydrateQuery_other)
    from Cons.IH [OF step] False show ?thesis by simp
  qed
qed

lemma hydrate_object:
  "hydrate u client (JsObject (Some qs)) opts =
     fold (hydrateQuery u
       (case opts of None \<Rightarrow> emptyOptions
        | Some x \<Rightarrow> (case hydrate_defaultOptions x of None \<Rightarrow> emptyOptions | Some d \<Rightarrow> d))) qs client"
  by (simp add: hydrate_def)

text \<open>
  C1. When the \<^verbatim>\<open>forEach\<close> of \<open>hydrate\<close> reaches a dehydrated query whose hash is that
  of a query \<open>existing\<close> of the cache, the state of \<open>existing\<close> is replaced by the
  dehydrated state if and only if the dehydrated \<open>updatedAt\<close> is greater than the
  existing one; otherwise, in particular when the existing \<open>updatedAt\<close> is greater or
  equal, the step leaves the client as it was. For a whole call, with the dehydrated query
  the only one of the payload with its hash, the query found under the hash afterwards is
  \<open>existing\<close> with the dehydrated state when that is newer, and \<open>existing\<close> otherwise.
  For any payload, the state of \<open>existing\<close> after the call is what the payload entries
  with its hash make of it one after the other, each replacing the state it meets exactly
  when it is newer.
\<close>

theorem hydrate_overwrites_iff_newer:
  assumes "get (getQueryCache client) (dq_queryHash dq) = Some existing"
  shows "get (getQueryCache (hydrateQuery u dflt dq client)) (dq_queryHash dq) =
           Some (if js_gt (updatedAt (dq_state dq)) (updatedAt (state existing))
                 then setState (dq_state dq) existing else existing)
       \<and> (\<not> js_gt (updatedAt (dq_state dq)) (updatedAt (state existing)) \<longrightarrow>
            hydrateQuery u dflt dq client = client)
       \<and> (js_ge (updatedAt (state existing)) (updatedAt (dq_state dq)) \<longrightarrow>
            hydrateQuery u dflt dq client = client)
       \<and> (dq \<in> set qs \<and> (\<forall>d\<in>set qs. dq_queryHash d = dq_queryHash dq \<longrightarrow> d = dq) \<longrightarrow>
            get (getQueryCache (hydrate u client (JsObject (Some qs)) opts)) (dq_queryHash dq) =
              Some (if js_gt (updatedAt (dq_state dq)) (updatedAt (state existing))
                    then setState (dq_state dq) existing else existing))
       \<and> get (getQueryCache (hydrate u client (JsObject (Some qs)) opts)) (dq_queryHash dq) =
           Some (existing\<lparr>state :=
                   fold (\<lambda>d s. if js_gt (updatedAt (dq_state d)) (updatedAt s) then dq_state d else s)
                     (filter (\<lambda>d. dq_queryHash d = dq_queryHash dq) qs) (state existing)\<rparr>)"
proof -
  from assms have ex: "get (queryCache client) (dq_queryHash dq) = Some existing"
    by (simp add: getQueryCache_def)
  have one: "get (getQueryCache (hydrateQuery u dflt dq client)) (dq_queryHash dq) =
           Some (if js_gt (updatedAt (dq_state dq)) (updatedAt (state existing))
                 then setState (dq_state dq) existing else existing)"
    using get_hydrateQuery_existing [OF ex, of u dflt]
    by (simp add: getQueryCache_def js_gt_def setState_def)
  have two: "\<not> js_gt (updatedAt (dq_state dq)) (updatedAt (state existing)) \<longrightarrow>
            hydrateQuery u dflt dq client = client"
    using ex by (simp add: hydrateQuery_def getQueryCache_def js_gt_def)
  have three: "js_ge (updatedAt (state existing)) (updatedAt (dq_state dq)) \<longrightarrow>
            hydrateQuery u dflt dq client = client"
    using two by (auto simp: js_gt_def dest: js_ge_not_lt)
  have four: "dq \<in> set qs \<and> (\<forall>d\<in>set qs. dq_queryHash d = dq_queryHash dq \<longrightarrow> d = dq) \<longrightarrow>
            get (getQueryCache (hydrate u client (JsObject (Some qs)) opts)) (dq_queryHash dq) =
              Some (if js_gt (updatedAt (dq_state dq)) (updatedAt (state existing))
                    then setState (dq_state dq) existing else existing)"
  proof
    assume h: "dq \<in> set qs \<and> (\<forall>d\<in>set qs. dq_queryHash d = dq_queryHash dq \<longrightarrow> d = dq)"
    show "get (getQueryCache (hydrate u client (JsObject (Some qs)) opts)) (dq_queryHash dq) =
              Some (if js_gt (updatedAt (dq_state dq)) (updatedAt (state existing))
                    then setState (dq_state dq) existing else existing)"
      unfolding hydrate_object getQueryCache_def js_gt_def setState_def
    proof (rule hydrate_fold_existing [OF ex])
      show "dq \<in> set qs" using h by simp
      show "\<forall>d\<in>set qs. dq_queryHash d = dq_queryHash dq \<longrightarrow> d = dq" using h by simp
    qed
  qed
  have five: "get (getQueryCache (hydrate u client (JsObject (Some qs)) opts)) (dq_queryHash dq) =
           Some (existing\<lparr>state :=
                   fold (\<lambda>d s. if js_gt (updatedAt (dq_state d)) (updatedAt s) then dq_state d else s)
                     (filter (\<lambda>d. dq_queryHash d = dq_queryHash dq) qs) (state existing)\<rparr>)"
    unfolding hydrate_object getQueryCache_def js_gt_def
    by (rule hydrate_fold_general [OF ex])
  from one two three four five show ?thesis by (intro conjI)
qed

text \<open>
  The two orders of the hydration tests: an older payload leaves the client as it was, a
  newer payload replaces the state.
\<close>

theorem hydrate_overwrites_iff_newer_witness:
  "get (getQueryCache (example_client [example_query ''k'' (example_state Success 10 (JStr ''newer'')) (Fin 300000) []])) ''k''
     = Some (example_query ''k'' (example_state Success 10 (JStr ''newer'')) (Fin 300000) [])
   \<and> js_ge (Fin 10) (Fin 5)
   \<and> hydrate example_utils
        (example_client [example_query ''k'' (example_state Success 10 (JStr ''newer'')) (Fin 300000) []])
        (JsObject (Some [dehydrateQuery (example_query ''k'' (example_state Success 5 (JStr ''older'')) (Fin 300000) [])]))
        None
      = example_client [example_query ''k'' (example_state Success 10 (JStr ''newer'')) (Fin 300000) []]
   \<and> get (getQueryCache (hydrate example_utils
        (example_client [example_query ''k'' (example_state Success 5 (JStr ''older'')) (Fin 300000) []])
        (JsObject (Some [dehydrateQuery (example_query ''k'' (example_state Success 10 (JStr ''newer'')) (Fin 300000) [])]))
        None)) ''k''
      = Some (example_query ''k'' (example_state Success 10 (JStr ''newer'')) (Fin 300000) [])"
  using hydrate_overwrites_iff_newer
    [of "example_client [example_query ''k'' (example_state Success 10 (JStr ''newer'')) (Fin 300000) []]"
        "dehydrateQuery (example_query ''k'' (example_state Success 5 (JStr ''older'')) (Fin 300000) [])"
        "example_query ''k'' (example_state Success 10 (JStr ''newer'')) (Fin 300000) []"
        example_utils emptyOptions
        "[dehydrateQuery (example_query ''k'' (example_state Success 5 (JStr ''older'')) (Fin 300000) [])]"
        None]
    hydrate_overwrites_iff_newer
    [of "example_client [example_query ''k'' (example_state Success 5 (JStr ''older'')) (Fin 300000) []]"
        "dehydrateQuery (example_query ''k'' (example_state Success 10 (JStr ''newer'')) (Fin 300000) [])"
        "example_query ''k'' (example_state Success 5 (JStr ''older'')) (Fin 300000) []"
        example_utils emptyOptions
        "[dehydrateQuery (example_query ''k'' (example_state Success 10 (JStr ''newer'')) (Fin 300000) [])]"
        None]
  by (simp add: example_client_def example_query_def example_state_def dehydrateQuery_def
      getQueryCache_def get_def hydrate_def hydrateQuery_def js_ge_def js_gt_def setState_def)

section \<open>Dehydration\<close>

lemma defaultShouldDehydrate_eq: "defaultShouldDehydrate = (\<lambda>q. status (state q) = Success)"
  by (rule ext) (simp add: defaultShouldDehydrate_def)

text \<open>
  C3. Without a \<open>shouldDehydrate\<close> option (no options at all, or options without the
  field), \<open>dehydrate\<close> emits, in cache order, the dehydrated form of exactly the queries
  whose status is success: an entry is in the payload if and only if it is the dehydrated
  form of a successful query of the cache, no query whose status is loading, error or idle
  is emitted, and each entry holds the key, the hash, the state and the encoded cacheTime
  of its query.
\<close>

theorem dehydrate_default_success_only:
  "queries (dehydrate client None) =
     map dehydrateQuery (filter (\<lambda>q. status (state q) = Success) (getAll (getQueryCache client)))
   \<and> (shouldDehydrate dopts = None \<longrightarrow>
        queries (dehydrate client (Some dopts)) = queries (dehydrate client None))
   \<and> (d \<in> set (queries (dehydrate client None)) \<longleftrightarrow>
        (\<exists>q\<in>set (getAll (getQueryCache client)). status (state q) = Success \<and> d = dehydrateQuery q))
   \<and> (\<forall>q\<in>set (getAll (getQueryCache client)).
        status (state q) \<in> {Loading, Error, Idle} \<longrightarrow>
          dehydrateQuery q \<notin> set (queries (dehydrate client None)))
   \<and> dehydrateQuery q =
        \<lparr>dq_queryKey = queryKey q, dq_queryHash = queryHash q, dq_state = state q,
         dq_config = \<lparr>cfg_cacheTime = serializePositiveNumber (cacheTime q)\<rparr>\<rparr>"
proof -
  have eq: "queries (dehydrate client None) =
     map dehydrateQuery (filter (\<lambda>q. status (state q) = Success) (getAll (getQueryCache client)))"
    by (simp add: dehydrate_def dehydrate_loop defaultShouldDehydrate_eq)
  have same: "shouldDehydrate dopts = None \<longrightarrow>
        queries (dehydrate client (Some dopts)) = queries (dehydrate client None)"
    by (simp add: dehydrate_def)
  have mem: "d \<in> set (queries (dehydrate client None)) \<longleftrightarrow>
        (\<exists>q\<in>set (getAll (getQueryCache client)). status (state q) = Success \<and> d = dehydrateQuery q)"
    unfolding eq by auto
  have none: "\<forall>q\<in>set (getAll (getQueryCache client)).
        status (state q) \<in> {Loading, Error, Idle} \<longrightarrow>
          dehydrateQuery q \<notin> set (queries (dehydrate client None))"
    unfolding eq by (auto simp: dehydrateQuery_def)
  have shape: "dehydrateQuery q =
        \<lparr>dq_queryKey = queryKey q, dq_queryHash = queryHash q, dq_state = state q,
         dq_config = \<lparr>cfg_cacheTime = serializePositiveNumber (cacheTime q)\<rparr>\<rparr>"
    by (simp add: dehydrateQuery_def)
  from eq same mem none shape show ?thesis by (intro conjI)
qed

text \<open>
  A cache with a successful, a loading and a failed query: only the first is emitted.
\<close>

theorem dehydrate_default_success_only_witness:
  "queries (dehydrate
      (example_client
        [example_query ''success'' (example_state Success 10 (JStr ''success'')) (Fin 300000) [],
         example_query ''loading'' (example_state Loading 0 JUndefined) (Fin 300000) [],
         example_query ''error'' (example_state Error 0 JUndefined) (Fin 300000) []])
      None)
   = [\<lparr>dq_queryKey = JStr ''success'', dq_queryHash = ''success'',
       dq_state = example_state Success 10 (JStr ''success''),
       dq_config = \<lparr>cfg_cacheTime = Fin 300000\<rparr>\<rparr>]"
  using dehydrate_default_success_only
    [of "example_client
        [example_query ''success'' (example_state Success 10 (JStr ''success'')) (Fin 300000) [],
         example_query ''loading'' (example_state Loading 0 JUndefined) (Fin 300000) [],
         example_query ''error'' (example_state Error 0 JUndefined) (Fin 300000) []]"
       "\<lparr>shouldDehydrate = None\<rparr>"
       "dehydrateQuery (example_query ''success'' (example_state Success 10 (JStr ''success'')) (Fin 300000) [])"
       "example_query ''success'' (example_state Success 10 (JStr ''success'')) (Fin 300000) []"]
  by (simp add: example_client_def example_query_def example_state_def dehydrateQuery_def
      getQueryCache_def getAll_def serializePositiveNumber_def)

section \<open>Payloads that are not objects\<close>

text \<open>
  C8. When the payload is not an object or is null, \<open>hydrate\<close> returns the client as it
  was: no query is added and no state is replaced. The same holds for an object without a
  \<^verbatim>\<open>queries\<close> field, and for an empty \<^verbatim>\<open>queries\<close> array.
\<close>

theorem hydrate_ignores_non_objects:
  "(typeof payload \<noteq> ''object'' \<or> payload = JsNull \<longrightarrow> hydrate u client payload opts = client)
   \<and> hydrate u client (JsObject None) opts = client
   \<and> hydrate u client (JsObject (Some [])) opts = client"
  by (simp add: hydrate_def)

text \<open>A string and null as payloads.\<close>

theorem hydrate_ignores_non_objects_witness:
  "typeof (JsString ''queries'') \<noteq> ''object''
   \<and> hydrate example_utils
        (example_client [example_query ''k'' (example_state Success 10 (JStr ''v'')) (Fin 300000) []])
        (JsString ''queries'') None
      = example_client [example_query ''k'' (example_state Success 10 (JStr ''v'')) (Fin 300000) []]
   \<and> hydrate example_utils
        (example_client [example_query ''k'' (example_state Success 10 (JStr ''v'')) (Fin 300000) []])
        JsNull None
      = example_client [example_query ''k'' (example_state Success 10 (JStr ''v'')) (Fin 300000) []]"
  using hydrate_ignores_non_objects
    [of "JsString ''queries''" example_utils
        "example_client [example_query ''k'' (example_state Success 10 (JStr ''v'')) (Fin 300000) []]" None]
    hydrate_ignores_non_objects
    [of JsNull example_utils
        "example_client [example_query ''k'' (example_state Success 10 (JStr ''v'')) (Fin 300000) []]" None]
  by simp

section \<open>The cacheTime encoding\<close>

lemma get_hydrateQuery_new:
  assumes "get (queryCache c) (dq_queryHash d) = None"
  shows "get (queryCache (hydrateQuery u dflt d c)) (dq_queryHash d) =
    Some \<lparr>queryKey = dq_queryKey d, queryHash = dq_queryHash d, state = dq_state d,
          cacheTime = deserializePositiveNumber (cfg_cacheTime (dq_config d)),
          options = dflt\<lparr>opt_queryKey := Some (dq_queryKey d),
                         opt_queryHash := Some (dq_queryHash d),
                         opt_cacheTime :=
                           Some (deserializePositiveNumber (cfg_cacheTime (dq_config d)))\<rparr>,
          observers = []\<rparr>"
  using assms
  by (simp add: hydrateQuery_def getQueryCache_def restoreQuery_def build_def get_append Let_def)

lemma cacheTime_fold_existing:
  assumes "get (queryCache c) h = Some q"
  shows "map_option cacheTime (get (queryCache (fold (hydrateQuery u dflt) qs c)) h) =
    Some (cacheTime q)"
  using assms
proof (induction qs arbitrary: c q)
  case Nil
  then show ?case by simp
next
  case (Cons d qs)
  have "\<exists>q'. get (queryCache (hydrateQuery u dflt d c)) h = Some q' \<and> cacheTime q' = cacheTime q"
  proof (cases "dq_queryHash d = h")
    case True
    with Cons.prems have "get (queryCache c) (dq_queryHash d) = Some q" by simp
    from get_hydrateQuery_existing [OF this, of u dflt] True show ?thesis by auto
  next
    case False
    with Cons.prems show ?thesis by (simp add: get_hydrateQuery_other)
  qed
  then obtain q' where step: "get (queryCache (hydrateQuery u dflt d c)) h = Some q'"
    and same: "cacheTime q' = cacheTime q" by blast
  from Cons.IH [OF step] same show ?case by simp
qed

lemma cacheTime_fold_new:
  assumes "get (queryCache c) h = None"
    and "List.find (\<lambda>d. dq_queryHash d = h) qs = Some d"
  shows "map_option cacheTime (get (queryCache (fold (hydrateQuery u dflt) qs c)) h) =
    Some (deserializePositiveNumber (cfg_cacheTime (dq_config d)))"
  using assms
proof (induction qs arbitrary: c)
  case Nil
  then show ?case by simp
next
  case (Cons x qs)
  show ?case
  proof (cases "dq_queryHash x = h")
    case True
    with Cons.prems(2) have xd: "x = d" by simp
    from Cons.prems(1) True have "get (queryCache c) (dq_queryHash x) = None" by simp
    from get_hydrateQuery_new [OF this, of u dflt] True
    have "\<exists>q'. get (queryCache (hydrateQuery u dflt x c)) h = Some q' \<and>
        cacheTime q' = deserializePositiveNumber (cfg_cacheTime (dq_config x))"
      by simp
    then obtain q' where step: "get (queryCache (hydrateQuery u dflt x c)) h = Some q'"
      and ct: "cacheTime q' = deserializePositiveNumber (cfg_cacheTime (dq_config x))"
      by blast
    from cacheTime_fold_existing [OF step, of u dflt qs] ct xd show ?thesis by simp
  next
    case False
    with Cons.prems(2) have found: "List.find (\<lambda>d. dq_queryHash d = h) qs = Some d" by simp
    from False Cons.prems(1) have step: "get (queryCache (hydrateQuery u dflt x c)) h = None"
      by (simp add: get_hydrateQuery_other)
    from Cons.IH [OF step found] show ?thesis by simp
  qed
qed

lemma find_dehydrated:
  "List.find (\<lambda>d. dq_queryHash d = h) (map dehydrateQuery xs) =
     map_option dehydrateQuery (List.find (\<lambda>q. queryHash q = h) xs)"
  by (induction xs) (simp_all add: dehydrateQuery_def)

text \<open>
  C4. For a cacheTime \<open>c\<close> that is Infinity or a non-negative finite number, decoding the
  encoded value gives \<open>c\<close> back. Infinity is encoded as -1 and -1 is decoded as Infinity;
  the encoded value is finite; \<open>dehydrate\<close> stores the encoded cacheTime of each query;
  and hydrating the payload that \<open>dehydrate\<close> makes of a source client into a client
  without a query of that hash restores a query whose cacheTime is \<open>c\<close> again.
\<close>

theorem cacheTime_roundtrip:
  assumes "c = Infinity \<or> (\<exists>r. 0 \<le> r \<and> c = Fin r)"
  shows "deserializePositiveNumber (serializePositiveNumber c) = c
    \<and> serializePositiveNumber Infinity = Fin (- 1)
    \<and> deserializePositiveNumber (Fin (- 1)) = Infinity
    \<and> (\<exists>r. serializePositiveNumber c = Fin r)
    \<and> (cacheTime q = c \<longrightarrow>
         cfg_cacheTime (dq_config (dehydrateQuery q)) = serializePositiveNumber c)
    \<and> (cacheTime q = c
         \<and> List.find (\<lambda>x. queryHash x = queryHash q)
             (filter (\<lambda>x. status (state x) = Success) (getAll (getQueryCache source))) = Some q
         \<and> get (getQueryCache target) (queryHash q) = None \<longrightarrow>
         map_option cacheTime
           (get (getQueryCache
                  (hydrate u target (JsObject (Some (queries (dehydrate source None)))) opts))
              (queryHash q)) = Some c)"
proof -
  have rt: "deserializePositiveNumber (serializePositiveNumber c) = c"
    using assms by (auto simp: serializePositiveNumber_def deserializePositiveNumber_def)
  have enc: "serializePositiveNumber Infinity = Fin (- 1)"
    by (simp add: serializePositiveNumber_def)
  have dec: "deserializePositiveNumber (Fin (- 1)) = Infinity"
    by (simp add: deserializePositiveNumber_def)
  have fin: "\<exists>r. serializePositiveNumber c = Fin r"
    using assms by (auto simp: serializePositiveNumber_def)
  have dq: "cacheTime q = c \<longrightarrow>
         cfg_cacheTime (dq_config (dehydrateQuery q)) = serializePositiveNumber c"
    by (simp add: dehydrateQuery_def)
  have whole: "cacheTime q = c
         \<and> List.find (\<lambda>x. queryHash x = queryHash q)
             (filter (\<lambda>x. status (state x) = Success) (getAll (getQueryCache source))) = Some q
         \<and> get (getQueryCache target) (queryHash q) = None \<longrightarrow>
         map_option cacheTime
           (get (getQueryCache
                  (hydrate u target (JsObject (Some (queries (dehydrate source None)))) opts))
              (queryHash q)) = Some c"
  proof
    assume h: "cacheTime q = c
         \<and> List.find (\<lambda>x. queryHash x = queryHash q)
             (filter (\<lambda>x. status (state x) = Success) (getAll (getQueryCache source))) = Some q
         \<and> get (getQueryCache target) (queryHash q) = None"
    have payload: "queries (dehydrate source None) =
       map dehydrateQuery
         (filter (\<lambda>x. status (state x) = Success) (getAll (getQueryCache source)))"
      by (simp add: dehydrate_def dehydrate_loop defaultShouldDehydrate_eq)
    have found: "List.find (\<lambda>d. dq_queryHash d = queryHash q) (queries (dehydrate source None)) =
        Some (dehydrateQuery q)"
      unfolding payload find_dehydrated using h by simp
    have absent: "get (queryCache target) (queryHash q) = None"
      using h by (simp add: getQueryCache_def)
    have "map_option cacheTime
           (get (queryCache
                  (hydrate u target (JsObject (Some (queries (dehydrate source None)))) opts))
              (queryHash q)) =
          Some (deserializePositiveNumber (cfg_cacheTime (dq_config (dehydrateQuery q))))"
      unfolding hydrate_object by (rule cacheTime_fold_new [OF absent found])
    also have "cfg_cacheTime (dq_config (dehydrateQuery q)) = serializePositiveNumber c"
      using h by (simp add: dehydrateQuery_def)
    finally show "map_option cacheTime
           (get (getQueryCache
                  (hydrate u target (JsObject (Some (queries (dehydrate source None)))) opts))
              (queryHash q)) = Some c"
      using rt by (simp add: getQueryCache_def)
  qed
  from rt enc dec fin dq whole show ?thesis by (intro conjI)
qed

text \<open>
  The test of the hydration suite: a query with cacheTime Infinity is dehydrated with -1
  and restored with Infinity.
\<close>

theorem cacheTime_roundtrip_witness:
  "queries (dehydrate
       (example_client [example_query ''string'' (example_state Success 10 (JStr ''string'')) Infinity []])
       None)
     = [\<lparr>dq_queryKey = JStr ''string'', dq_queryHash = ''string'',
         dq_state = example_state Success 10 (JStr ''string''),
         dq_config = \<lparr>cfg_cacheTime = Fin (- 1)\<rparr>\<rparr>]
   \<and> map_option cacheTime
        (get (getQueryCache
               (hydrate example_utils (example_client [])
                  (JsObject (Some (queries (dehydrate
                     (example_client
                        [example_query ''string'' (example_state Success 10 (JStr ''string'')) Infinity []])
                     None))))
                  None))
           ''string'') = Some Infinity
   \<and> deserializePositiveNumber (serializePositiveNumber (Fin 50)) = Fin 50"
  using cacheTime_roundtrip
    [of Infinity
        "example_query ''string'' (example_state Success 10 (JStr ''string'')) Infinity []"
        "example_client [example_query ''string'' (example_state Success 10 (JStr ''string'')) Infinity []]"
        "example_client []" example_utils None]
    cacheTime_roundtrip [of "Fin 50"]
  by (simp add: example_client_def example_query_def example_state_def dehydrateQuery_def
      getQueryCache_def getAll_def get_def serializePositiveNumber_def dehydrate_def
      defaultShouldDehydrate_def)

section \<open>Fetching through the client\<close>














text \<open>
  C5. The promise that \<open>prefetchQuery\<close> returns is never rejected. When the promise of
  \<open>fetchQueryData\<close> is fulfilled, whatever the value, it is fulfilled with
  \<^verbatim>\<open>undefined\<close>; when that promise is rejected, whatever the reason, it is fulfilled
  with \<^verbatim>\<open>undefined\<close> as well; it stays unsettled only as long as the promise of
  \<open>fetchQueryData\<close> does. The client is left as \<open>fetchQueryData\<close> leaves it.
\<close>

theorem prefetchQuery_never_rejects:
  "fst (prefetchQuery u queryFetch now client parsed) \<noteq> Rejected e
   \<and> (settle queryFetch (fst (fetchQueryData u now client parsed)) = Fulfilled v \<longrightarrow>
        fst (prefetchQuery u queryFetch now client parsed) = Fulfilled JUndefined)
   \<and> (settle queryFetch (fst (fetchQueryData u now client parsed)) = Rejected e \<longrightarrow>
        fst (prefetchQuery u queryFetch now client parsed) = Fulfilled JUndefined)
   \<and> (fst (prefetchQuery u queryFetch now client parsed) = Pending \<longleftrightarrow>
        settle queryFetch (fst (fetchQueryData u now client parsed)) = Pending)
   \<and> snd (prefetchQuery u queryFetch now client parsed) = snd (fetchQueryData u now client parsed)"
  by (cases "fetchQueryData u now client parsed";
      cases "settle queryFetch (fst (fetchQueryData u now client parsed))")
     (simp_all add: prefetchQuery_def promise_then_def promise_catch_def noop_def)

text \<open>A fetch that fails and a fetch that succeeds, on an empty cache.\<close>

theorem prefetchQuery_never_rejects_witness:
  "fst (prefetchQuery example_utils (\<lambda>q opts. Rejected (JStr ''boom'')) (Fin 0) (example_client [])
         (emptyOptions\<lparr>opt_queryKey := Some (JStr ''error''), opt_queryFn := Some 1\<rparr>))
     = Fulfilled JUndefined
   \<and> fst (prefetchQuery example_utils (\<lambda>q opts. Fulfilled (JStr ''data'')) (Fin 0) (example_client [])
         (emptyOptions\<lparr>opt_queryKey := Some (JStr ''success''), opt_queryFn := Some 1\<rparr>))
     = Fulfilled JUndefined"
  using prefetchQuery_never_rejects
    [of example_utils "\<lambda>q opts. Rejected (JStr ''boom'')" "Fin 0" "example_client []"
        "emptyOptions\<lparr>opt_queryKey := Some (JStr ''error''), opt_queryFn := Some 1\<rparr>"
        "JStr ''boom''" "JStr ''data''"]
    prefetchQuery_never_rejects
    [of example_utils "\<lambda>q opts. Fulfilled (JStr ''data'')" "Fin 0" "example_client []"
        "emptyOptions\<lparr>opt_queryKey := Some (JStr ''success''), opt_queryFn := Some 1\<rparr>"
        "JStr ''boom''" "JStr ''data''"]
  by (simp add: fetchQueryData_def example_client_def find_def settle_def buildQuery_def
      build_def Let_def split: prod.splits)

text \<open>
  C6, as the code has it. The retry policy of the options that \<open>fetchQueryData\<close> hands
  to \<^verbatim>\<open>query.fetch\<close> is \<^verbatim>\<open>false\<close> when the options parsed from the arguments of the
  call have no \<^verbatim>\<open>retry\<close>, whatever the default options of the client say, and is the
  \<^verbatim>\<open>retry\<close> of the parsed options otherwise. \<open>prefetchQuery\<close> goes through
  \<open>fetchQueryData\<close>, so the same holds for it.
\<close>

theorem fetchQueryData_retry_default:
  "opt_retry (fetchOptions client parsed) =
     Some (case opt_retry parsed of None \<Rightarrow> RetryBool False | Some r \<Rightarrow> r)
   \<and> (fetchedWith (fst (fetchQueryData u now client parsed)) = Some opts \<longrightarrow>
        opt_retry opts = Some (case opt_retry parsed of None \<Rightarrow> RetryBool False | Some r \<Rightarrow> r))
   \<and> (fst (fetchQueryData u now client parsed) = QueryFetch q opts \<longrightarrow>
        opts = fetchOptions client parsed)
   \<and> prefetchQuery u queryFetch now client parsed =
        (promise_catch noop (promise_then noop
           (settle queryFetch (fst (fetchQueryData u now client parsed)))),
         snd (fetchQueryData u now client parsed))"
proof -
  have r: "opt_retry (fetchOptions client parsed) =
     Some (case opt_retry parsed of None \<Rightarrow> RetryBool False | Some r \<Rightarrow> r)"
    by (simp add: fetchOptions_def defaultQueryOptions_def spread_def orElse_def
        split: option.splits)
  have w: "fst (fetchQueryData u now client parsed) = QueryFetch q opts \<longrightarrow>
        opts = fetchOptions client parsed" for q opts
    by (auto simp: fetchQueryData_def Let_def split: option.splits prod.splits if_splits)
  have f: "fetchedWith (fst (fetchQueryData u now client parsed)) = Some opts \<longrightarrow>
        opt_retry opts = Some (case opt_retry parsed of None \<Rightarrow> RetryBool False | Some r \<Rightarrow> r)"
    using w r by (cases "fst (fetchQueryData u now client parsed)") (auto simp: fetchedWith_def)
  have p: "prefetchQuery u queryFetch now client parsed =
        (promise_catch noop (promise_then noop
           (settle queryFetch (fst (fetchQueryData u now client parsed)))),
         snd (fetchQueryData u now client parsed))"
    by (simp add: prefetchQuery_def split: prod.splits)
  from r f w p show ?thesis by (intro conjI)
qed

text \<open>A call without \<^verbatim>\<open>retry\<close> and a call with \<^verbatim>\<open>retry: 2\<close>.\<close>

theorem fetchQueryData_retry_default_witness:
  "map_option opt_retry (fetchedWith (fst (fetchQueryData example_utils (Fin 0) (example_client [])
       (emptyOptions\<lparr>opt_queryKey := Some (JStr ''k''), opt_queryFn := Some 1\<rparr>))))
     = Some (Some (RetryBool False))
   \<and> map_option opt_retry (fetchedWith (fst (fetchQueryData example_utils (Fin 0) (example_client [])
       (emptyOptions\<lparr>opt_queryKey := Some (JStr ''k''), opt_queryFn := Some 1,
                     opt_retry := Some (RetryCount 2)\<rparr>))))
     = Some (Some (RetryCount 2))"
  using fetchQueryData_retry_default
    [of "example_client []"
        "emptyOptions\<lparr>opt_queryKey := Some (JStr ''k''), opt_queryFn := Some 1\<rparr>"
        example_utils "Fin 0"
        "fetchOptions (example_client [])
           (emptyOptions\<lparr>opt_queryKey := Some (JStr ''k''), opt_queryFn := Some 1\<rparr>)"]
    fetchQueryData_retry_default
    [of "example_client []"
        "emptyOptions\<lparr>opt_queryKey := Some (JStr ''k''), opt_queryFn := Some 1,
                     opt_retry := Some (RetryCount 2)\<rparr>"
        example_utils "Fin 0"
        "fetchOptions (example_client [])
           (emptyOptions\<lparr>opt_queryKey := Some (JStr ''k''), opt_queryFn := Some 1,
                     opt_retry := Some (RetryCount 2)\<rparr>)"]
  by (simp add: fetchQueryData_def example_client_def find_def fetchedWith_def buildQuery_def
      build_def Let_def fetchOptions_def defaultQueryOptions_def spread_def orElse_def
      emptyOptions_def split: prod.splits)

text \<open>
  C6 as stated fails: a client whose default options say \<^verbatim>\<open>retry: 3\<close>, and a call
  that gives no \<^verbatim>\<open>retry\<close>. The fetch runs with \<^verbatim>\<open>retry: false\<close>: the value of
  the default options is not left unchanged.
\<close>

theorem fetchQueryData_retry_client_default_overridden:
  "opt_retry (emptyOptions\<lparr>opt_queryKey := Some (JStr ''k''), opt_queryFn := Some 1\<rparr>) = None
   \<and> map_option opt_retry
        (dflt_queries (defaultOptions
           \<lparr>queryCache = [],
            defaultOptions = \<lparr>dflt_queries = Some (emptyOptions\<lparr>opt_retry := Some (RetryCount 3)\<rparr>)\<rparr>\<rparr>))
       = Some (Some (RetryCount 3))
   \<and> map_option opt_retry (fetchedWith (fst (fetchQueryData example_utils (Fin 0)
        \<lparr>queryCache = [],
         defaultOptions = \<lparr>dflt_queries = Some (emptyOptions\<lparr>opt_retry := Some (RetryCount 3)\<rparr>)\<rparr>\<rparr>
        (emptyOptions\<lparr>opt_queryKey := Some (JStr ''k''), opt_queryFn := Some 1\<rparr>))))
       = Some (Some (RetryBool False))"
  by (simp add: fetchQueryData_def find_def fetchedWith_def buildQuery_def
      build_def Let_def fetchOptions_def defaultQueryOptions_def spread_def orElse_def
      emptyOptions_def split: prod.splits)

section \<open>Invalidating queries\<close>

lemma invalidated_cache:
  "map (\<lambda>q. if q \<in> set (findAll u now cache f) then invalidate q else q) cache =
   map (\<lambda>q. if matchQuery u now f q then invalidate q else q) cache"
  by (rule map_cong) (simp_all add: findAll_def)

lemma invalidateQueries_unfold:
  "invalidateQueries u now client filters opts =
     (let refetchFilters =
            filters\<lparr>f_active := Some (case f_refetchActive filters of None \<Rightarrow> True | Some b \<Rightarrow> b),
                    f_inactive := Some (case f_refetchInactive filters of None \<Rightarrow> False | Some b \<Rightarrow> b)\<rparr>;
          matched = findAll u now (getQueryCache client) filters;
          cache' = map (\<lambda>q. if matchQuery u now filters q then invalidate q else q)
                     (getQueryCache client);
          refetched = findAll u now cache' refetchFilters
      in (\<lparr>awaits = map queryHash refetched,
           catches = (case opts of
                        None \<Rightarrow> True
                      | Some x \<Rightarrow> (case throwOnError x of None \<Rightarrow> True | Some t \<Rightarrow> \<not> t))\<rparr>,
          client\<lparr>queryCache := cache'\<rparr>,
          [Batch (map (\<lambda>q. Invalidate (queryHash q)) matched
                  @ [Batch (map (\<lambda>q. Fetch (queryHash q)) refetched)])]))"
  by (simp add: invalidateQueries_def refetchQueries_def batch_def Let_def getQueryCache_def
      invalidated_cache)

lemma isActive_invalidate: "isActive (invalidate q) = isActive q"
  by (simp add: isActive_def invalidate_def)

lemma isStale_invalidate: "isStale now (invalidate q)"
  by (simp add: isStale_def isStaleByTime_def invalidate_def)

lemma refetch_match_after_invalidate:
  assumes "f_active filters = None" and "f_inactive filters = None"
    and "f_stale filters \<noteq> Some False"
    and "case f_predicate filters of None \<Rightarrow> True | Some p \<Rightarrow> \<forall>x. p (invalidate x) = p x"
  shows "matchQuery u now (filters\<lparr>f_active := Some True, f_inactive := Some False\<rparr>)
           (if matchQuery u now filters q then invalidate q else q) =
         (matchQuery u now filters q \<and> isActive q)"
proof (cases "matchQuery u now filters q")
  case True
  have "matchQuery u now (filters\<lparr>f_active := Some True, f_inactive := Some False\<rparr>) (invalidate q)
        = isActive q"
    using True assms
    by (auto simp: matchQuery_def isActive_invalidate isStale_invalidate
        split: option.splits) (simp_all add: invalidate_def)
  with True show ?thesis by simp
next
  case False
  then have "\<not> matchQuery u now (filters\<lparr>f_active := Some True, f_inactive := Some False\<rparr>) q"
    using assms by (auto simp: matchQuery_def split: option.splits)
  with False show ?thesis by simp
qed


text \<open>
  C7, as the code has it. \<open>invalidateQueries\<close> marks every query that matches the
  filters as invalidated, then refetches the queries that match, after the invalidation,
  the filters in which \<^verbatim>\<open>active\<close> is replaced by \<^verbatim>\<open>refetchActive ?? true\<close> and
  \<^verbatim>\<open>inactive\<close> by \<^verbatim>\<open>refetchInactive ?? false\<close>, all inside one batch in which the
  batch of \<open>refetchQueries\<close> is nested. When \<^verbatim>\<open>refetchActive\<close> and
  \<^verbatim>\<open>refetchInactive\<close> are not given, and the filters do not set \<^verbatim>\<open>active\<close> or
  \<^verbatim>\<open>inactive\<close> themselves, do not ask for queries that are not stale, and have no
  predicate that the invalidation changes, the queries refetched are exactly the matching
  active ones: no matching inactive query is refetched.
\<close>

theorem invalidateQueries_marks_and_refetches:
  "(let refetchFilters =
          filters\<lparr>f_active := Some (case f_refetchActive filters of None \<Rightarrow> True | Some b \<Rightarrow> b),
                  f_inactive := Some (case f_refetchInactive filters of None \<Rightarrow> False | Some b \<Rightarrow> b)\<rparr>;
        matched = findAll u now (getQueryCache client) filters;
        cache' = map (\<lambda>q. if matchQuery u now filters q then invalidate q else q)
                   (getQueryCache client);
        refetched = findAll u now cache' refetchFilters
    in invalidateQueries u now client filters opts =
         (\<lparr>awaits = map queryHash refetched,
           catches = (case opts of
                        None \<Rightarrow> True
                      | Some x \<Rightarrow> (case throwOnError x of None \<Rightarrow> True | Some t \<Rightarrow> \<not> t))\<rparr>,
          client\<lparr>queryCache := cache'\<rparr>,
          [Batch (map (\<lambda>q. Invalidate (queryHash q)) matched
                  @ [Batch (map (\<lambda>q. Fetch (queryHash q)) refetched)])])
       \<and> (\<forall>q\<in>set matched. invalidate q \<in> set cache' \<and> isInvalidated (state (invalidate q)))
       \<and> (f_refetchActive filters = None \<and> f_refetchInactive filters = None
           \<and> f_active filters = None \<and> f_inactive filters = None
           \<and> f_stale filters \<noteq> Some False
           \<and> (case f_predicate filters of None \<Rightarrow> True | Some p \<Rightarrow> \<forall>x. p (invalidate x) = p x)
           \<longrightarrow> refetched = map invalidate (filter isActive matched)))"
proof -
  let ?M = "matchQuery u now filters"
  let ?cache = "getQueryCache client"
  let ?cache' = "map (\<lambda>q. if ?M q then invalidate q else q) ?cache"
  let ?rf = "filters\<lparr>f_active := Some (case f_refetchActive filters of None \<Rightarrow> True | Some b \<Rightarrow> b),
                  f_inactive := Some (case f_refetchInactive filters of None \<Rightarrow> False | Some b \<Rightarrow> b)\<rparr>"
  have marked: "\<forall>q\<in>set (findAll u now ?cache filters).
      invalidate q \<in> set ?cache' \<and> isInvalidated (state (invalidate q))"
    by (auto simp: findAll_def invalidate_def image_iff intro!: bexI)
  have ordinary: "findAll u now ?cache' ?rf = map invalidate (filter isActive (findAll u now ?cache filters))"
    if h: "f_refetchActive filters = None \<and> f_refetchInactive filters = None
           \<and> f_active filters = None \<and> f_inactive filters = None
           \<and> f_stale filters \<noteq> Some False
           \<and> (case f_predicate filters of None \<Rightarrow> True | Some p \<Rightarrow> \<forall>x. p (invalidate x) = p x)"
  proof -
    from h have rf: "?rf = filters\<lparr>f_active := Some True, f_inactive := Some False\<rparr>" by simp
    have sel: "matchQuery u now (filters\<lparr>f_active := Some True, f_inactive := Some False\<rparr>)
           (if ?M q then invalidate q else q) = (?M q \<and> isActive q)" for q
      using h by (intro refetch_match_after_invalidate) simp_all
    have "findAll u now ?cache' ?rf =
        map (\<lambda>q. if ?M q then invalidate q else q) (filter (\<lambda>q. ?M q \<and> isActive q) ?cache)"
      unfolding rf findAll_def filter_map by (simp add: comp_def sel)
    also have "\<dots> = map invalidate (filter (\<lambda>q. ?M q \<and> isActive q) ?cache)"
      by (rule map_cong) simp_all
    also have "filter (\<lambda>q. ?M q \<and> isActive q) ?cache = filter isActive (findAll u now ?cache filters)"
      by (simp add: findAll_def conj_commute)
    finally show ?thesis .
  qed
  show ?thesis
    unfolding Let_def
    using invalidateQueries_unfold [of u now client filters opts, unfolded Let_def] marked ordinary
    by (intro conjI impI) simp_all
qed

text \<open>
  Three queries, the first with an enabled observer, the second without an observer, the
  third with a disabled one: all are invalidated, the first is refetched.
\<close>

theorem invalidateQueries_marks_and_refetches_witness:
  "invalidateQueries example_utils (Fin 20)
     (example_client
        [example_query ''a'' (example_state Success 10 (JStr ''x'')) (Fin 300000) [example_observer None],
         example_query ''b'' (example_state Success 10 (JStr ''y'')) (Fin 300000) [],
         example_query ''c'' (example_state Success 10 (JStr ''z'')) (Fin 300000)
           [example_observer (Some False)]])
     emptyFilters None
   = (\<lparr>awaits = [''a''], catches = True\<rparr>,
      example_client
        [invalidate (example_query ''a'' (example_state Success 10 (JStr ''x'')) (Fin 300000) [example_observer None]),
         invalidate (example_query ''b'' (example_state Success 10 (JStr ''y'')) (Fin 300000) []),
         invalidate (example_query ''c'' (example_state Success 10 (JStr ''z'')) (Fin 300000)
           [example_observer (Some False)])],
      [Batch [Invalidate ''a'', Invalidate ''b'', Invalidate ''c'', Batch [Fetch ''a'']]])"
  using invalidateQueries_marks_and_refetches
    [of emptyFilters example_utils "Fin 20"
        "example_client
        [example_query ''a'' (example_state Success 10 (JStr ''x'')) (Fin 300000) [example_observer None],
         example_query ''b'' (example_state Success 10 (JStr ''y'')) (Fin 300000) [],
         example_query ''c'' (example_state Success 10 (JStr ''z'')) (Fin 300000)
           [example_observer (Some False)]]" None]
  by (simp add: Let_def emptyFilters_def example_client_def example_query_def example_observer_def
      findAll_def matchQuery_def isActive_def getQueryCache_def invalidate_def)

text \<open>
  C7 as stated fails: with the filter \<^verbatim>\<open>inactive: true\<close> the inactive query is matched
  and invalidated, no matching query is active, and yet the active query, which does not
  match the filters, is refetched.
\<close>

theorem invalidateQueries_refetches_unmatched_active:
  "snd (snd (invalidateQueries example_utils (Fin 20)
     (example_client
        [example_query ''a'' (example_state Success 10 (JStr ''x'')) (Fin 300000) [example_observer None],
         example_query ''b'' (example_state Success 10 (JStr ''y'')) (Fin 300000) []])
     (emptyFilters\<lparr>f_inactive := Some True\<rparr>) None))
   = [Batch [Invalidate ''b'', Batch [Fetch ''a'']]]
   \<and> filter isActive
       (findAll example_utils (Fin 20)
          (getQueryCache (example_client
            [example_query ''a'' (example_state Success 10 (JStr ''x'')) (Fin 300000) [example_observer None],
             example_query ''b'' (example_state Success 10 (JStr ''y'')) (Fin 300000) []]))
          (emptyFilters\<lparr>f_inactive := Some True\<rparr>)) = []
   \<and> f_refetchActive (emptyFilters\<lparr>f_inactive := Some True\<rparr>) = None
   \<and> f_refetchInactive (emptyFilters\<lparr>f_inactive := Some True\<rparr>) = None"
  by (simp add: invalidateQueries_def refetchQueries_def batch_def Let_def emptyFilters_def
      example_client_def example_query_def example_observer_def findAll_def matchQuery_def
      isActive_def getQueryCache_def invalidate_def)

section \<open>Mounting and unmounting\<close>

lemma indexOf_ge: "- 1 \<le> indexOf x xs"
  by (induction xs) (auto simp: Let_def)

lemma indexOf_absent: "indexOf x xs = - 1 \<longleftrightarrow> x \<notin> set xs"
proof (induction xs)
  case Nil
  then show ?case by simp
next
  case (Cons y ys)
  from indexOf_ge [of x ys] have "indexOf x ys + 1 \<noteq> - 1" by arith
  with Cons show ?case by (auto simp: Let_def)
qed

lemma splice_indexOf: "x \<in> set xs \<Longrightarrow> splice xs (indexOf x xs) 1 = remove1 x xs"
proof (induction xs)
  case Nil
  then show ?case by simp
next
  case (Cons y ys)
  show ?case
  proof (cases "x = y")
    case True
    then show ?thesis by (simp add: splice_def)
  next
    case False
    with Cons.prems have mem: "x \<in> set ys" by simp
    with indexOf_absent [of x ys] indexOf_ge [of x ys] have pos: "0 \<le> indexOf x ys" by arith
    from pos have n: "nat (indexOf x ys + 1) = Suc (nat (indexOf x ys))" by simp
    from Cons.IH [OF mem] have "take (nat (indexOf x ys)) ys @ drop (nat (indexOf x ys) + 1) ys = remove1 x ys"
      by (simp add: splice_def)
    with False mem pos n show ?thesis
      using indexOf_absent [of x ys] by (simp add: splice_def Let_def)
  qed
qed

lemma mountedClients_unmount: "mountedClients (unmount c r) = remove1 c (mountedClients r)"
proof (cases "c \<in> set (mountedClients r)")
  case True
  with indexOf_absent [of c "mountedClients r"] indexOf_ge [of c "mountedClients r"]
  have "indexOf c (mountedClients r) > - 1" by arith
  with splice_indexOf [OF True] show ?thesis by (simp add: unmount_def Let_def)
next
  case False
  with indexOf_absent [of c "mountedClients r"] show ?thesis
    by (simp add: unmount_def Let_def remove1_idem)
qed

lemma unmount_remove1: "unmount c r = r\<lparr>mountedClients := remove1 c (mountedClients r)\<rparr>"
proof (cases "c \<in> set (mountedClients r)")
  case True
  with indexOf_absent [of c "mountedClients r"] indexOf_ge [of c "mountedClients r"]
  have "indexOf c (mountedClients r) > - 1" by arith
  with splice_indexOf [OF True] show ?thesis by (simp add: unmount_def Let_def)
next
  case False
  with indexOf_absent [of c "mountedClients r"] show ?thesis
    by (simp add: unmount_def Let_def remove1_idem)
qed

lemma unmount_absent: "c \<notin> set (mountedClients r) \<Longrightarrow> unmount c r = r"
  using indexOf_absent [of c "mountedClients r"] by (simp add: unmount_def Let_def)

lemma mountedClients_mount: "mountedClients (mount c r) = mountedClients r @ [c]"
  by (simp add: mount_def)

lemma count_list_remove1:
  "count_list (remove1 x xs) y = (if x = y then count_list xs y - 1 else count_list xs y)"
  by (induction xs) auto

lemma mountedClients_mount_pow:
  "mountedClients ((mount c ^^ n) r) = mountedClients r @ replicate n c"
  by (induction n) (simp_all add: mountedClients_mount replicate_append_same)

lemma remove1_replicate:
  "c \<notin> set xs \<Longrightarrow> remove1 c (xs @ replicate n c) = xs @ replicate (n - 1) c"
  by (cases n) (simp_all add: remove1_append remove1_idem)

lemma mountedClients_unmount_pow:
  assumes "c \<notin> set xs" and "mountedClients r = xs @ replicate n c"
  shows "mountedClients ((unmount c ^^ m) r) = xs @ replicate (n - m) c"
proof (induction m)
  case 0
  from assms show ?case by simp
next
  case (Suc m)
  from assms(1) have "remove1 c (xs @ replicate (n - m) c) = xs @ replicate (n - m - 1) c"
    by (rule remove1_replicate)
  with Suc show ?case by (simp add: mountedClients_unmount)
qed

lemma uniq_snoc_twice: "uniq (xs @ [x, x]) = uniq (xs @ [x])"
  by (simp add: uniq_def)

lemma set_uniq: "set (uniq xs) = set xs"
  by (simp add: uniq_def)

lemma distinct_uniq: "distinct (uniq xs)"
  by (simp add: uniq_def)

lemma getCaches_mount_twice:
  "getQueryCaches (mount c (mount c r)) = getQueryCaches (mount c r)"
  "getMutationCaches (mount c (mount c r)) = getMutationCaches (mount c r)"
  by (simp_all add: getQueryCaches_def getMutationCaches_def mount_def uniq_snoc_twice)

text \<open>
  C9, as the code has it. \<open>mount\<close> appends the client to the list on every call, and
  \<open>unmount\<close> removes one entry of the client, the first (the list afterwards is
  \<open>remove1\<close> of the client from the list before, and nothing else of the registry
  changes), leaving every other client alone and doing nothing when the client is not in the
  list. Mounting twice is the same as
  mounting once for the calls that the focus and online callbacks make, where the caches
  are deduplicated. A client that was not mounted is, after \<open>n\<close> mounts, unregistered by
  \<open>n\<close> unmounts; after a single unmount it is still registered exactly when \<open>n\<close> is
  at least 2.
\<close>

theorem mount_counts_registrations:
  "mountedClients (mount c r) = mountedClients r @ [c]
   \<and> mountedClients (unmount c r) = remove1 c (mountedClients r)
   \<and> unmount c r = r\<lparr>mountedClients := remove1 c (mountedClients r)\<rparr>
   \<and> count_list (mountedClients (unmount c r)) c = count_list (mountedClients r) c - 1
   \<and> (c' \<noteq> c \<longrightarrow>
        count_list (mountedClients (unmount c r)) c' = count_list (mountedClients r) c')
   \<and> (c \<notin> set (mountedClients r) \<longrightarrow> unmount c r = r)
   \<and> onFocus v (mount c (mount c r)) = onFocus v (mount c r)
   \<and> onOnline v (mount c (mount c r)) = onOnline v (mount c r)
   \<and> (c \<notin> set (mountedClients r) \<longrightarrow>
        mountedClients ((unmount c ^^ n) ((mount c ^^ n) r)) = mountedClients r)
   \<and> (c \<notin> set (mountedClients r) \<longrightarrow>
        (c \<in> set (mountedClients (unmount c ((mount c ^^ n) r))) \<longleftrightarrow> 2 \<le> n))"
proof -
  have a: "mountedClients (mount c r) = mountedClients r @ [c]"
    by (rule mountedClients_mount)
  have u: "mountedClients (unmount c r) = remove1 c (mountedClients r)"
    by (rule mountedClients_unmount)
  have u': "unmount c r = r\<lparr>mountedClients := remove1 c (mountedClients r)\<rparr>"
    by (rule unmount_remove1)
  have b: "count_list (mountedClients (unmount c r)) c = count_list (mountedClients r) c - 1"
    by (simp add: mountedClients_unmount count_list_remove1)
  have b': "c' \<noteq> c \<longrightarrow>
        count_list (mountedClients (unmount c r)) c' = count_list (mountedClients r) c'"
    by (simp add: mountedClients_unmount count_list_remove1)
  have d: "c \<notin> set (mountedClients r) \<longrightarrow> unmount c r = r"
    by (simp add: unmount_absent)
  have e: "onFocus v (mount c (mount c r)) = onFocus v (mount c r)"
    by (simp add: onFocus_def getCaches_mount_twice)
  have e': "onOnline v (mount c (mount c r)) = onOnline v (mount c r)"
    by (simp add: onOnline_def getCaches_mount_twice)
  have f: "c \<notin> set (mountedClients r) \<longrightarrow>
        mountedClients ((unmount c ^^ n) ((mount c ^^ n) r)) = mountedClients r"
  proof
    assume notin: "c \<notin> set (mountedClients r)"
    have "mountedClients ((mount c ^^ n) r) = mountedClients r @ replicate n c"
      by (rule mountedClients_mount_pow)
    from mountedClients_unmount_pow [OF notin this, of n]
    show "mountedClients ((unmount c ^^ n) ((mount c ^^ n) r)) = mountedClients r" by simp
  qed
  have g: "c \<notin> set (mountedClients r) \<longrightarrow>
        (c \<in> set (mountedClients (unmount c ((mount c ^^ n) r))) \<longleftrightarrow> 2 \<le> n)"
  proof
    assume notin: "c \<notin> set (mountedClients r)"
    have "mountedClients ((mount c ^^ n) r) = mountedClients r @ replicate n c"
      by (rule mountedClients_mount_pow)
    from mountedClients_unmount_pow [OF notin this, of 1]
    have "mountedClients (unmount c ((mount c ^^ n) r)) = mountedClients r @ replicate (n - 1) c"
      by simp
    with notin show "c \<in> set (mountedClients (unmount c ((mount c ^^ n) r))) \<longleftrightarrow> 2 \<le> n"
      by auto
  qed
  from a u u' b b' d e e' f g show ?thesis by (intro conjI)
qed

text \<open>
  One and two mounts of client 1 on the empty list, and an unmount of client 1 from the
  list 1, 0, 1, which removes the entry in front.
\<close>

theorem mount_counts_registrations_witness:
  "(1::nat) \<notin> set (mountedClients example_registry)
   \<and> mountedClients (unmount 1 (mount 1 example_registry)) = []
   \<and> mountedClients (unmount 1 (unmount 1 (mount 1 (mount 1 example_registry)))) = []
   \<and> 1 \<in> set (mountedClients (unmount 1 (mount 1 (mount 1 example_registry))))
   \<and> mountedClients (unmount 1 (mount 1 (mount 0 (mount 1 example_registry)))) = [0, 1]"
  using mount_counts_registrations [of 1 example_registry 2 True 2]
    mount_counts_registrations [of 1 "mount 1 (mount 0 (mount 1 example_registry))" 2 True 2]
  by (simp add: example_registry_def numeral_2_eq_2 mount_def unmount_def splice_def Let_def)

text \<open>
  C9 as stated fails: two mounts do not leave the list that one mount leaves, and after
  two mounts and a single unmount the client is still registered.
\<close>

theorem mount_twice_unmount_once_still_mounted:
  "mountedClients (mount 1 (mount 1 example_registry)) \<noteq> mountedClients (mount 1 example_registry)
   \<and> 1 \<in> set (mountedClients (unmount 1 (mount 1 (mount 1 example_registry))))
   \<and> 1 \<notin> set (mountedClients (unmount 1 (mount 1 example_registry)))"
  by (simp add: example_registry_def mount_def unmount_def splice_def Let_def)

section \<open>The focus and online callbacks\<close>

lemma count_list_distinct: "distinct xs \<Longrightarrow> x \<in> set xs \<Longrightarrow> count_list xs x = 1"
  by (induction xs) (auto simp: count_list_0_iff)

text \<open>
  C10. When \<^verbatim>\<open>isVisibleAndOnline()\<close> is false, the focus and the online callback call no
  cache. When it is true, they call \<^verbatim>\<open>onFocus\<close> (\<^verbatim>\<open>onOnline\<close>) first on the mutation
  caches and then on the query caches of the mounted clients, every cache of a mounted
  client exactly once, however many mounted clients share it.
\<close>

theorem focus_and_online_notify_each_cache_once:
  "onFocus False r = [] \<and> onOnline False r = []
   \<and> onFocus True r =
       map MutationCache_onFocus (getMutationCaches r) @ map QueryCache_onFocus (getQueryCaches r)
   \<and> onOnline True r =
       map MutationCache_onOnline (getMutationCaches r) @ map QueryCache_onOnline (getQueryCaches r)
   \<and> distinct (getMutationCaches r)
   \<and> set (getMutationCaches r) = mutationCacheOf r ` set (mountedClients r)
   \<and> distinct (getQueryCaches r)
   \<and> set (getQueryCaches r) = queryCacheOf r ` set (mountedClients r)
   \<and> distinct (onFocus True r) \<and> distinct (onOnline True r)
   \<and> (\<forall>c\<in>set (mountedClients r).
        count_list (onFocus True r) (MutationCache_onFocus (mutationCacheOf r c)) = 1
        \<and> count_list (onFocus True r) (QueryCache_onFocus (queryCacheOf r c)) = 1
        \<and> count_list (onOnline True r) (MutationCache_onOnline (mutationCacheOf r c)) = 1
        \<and> count_list (onOnline True r) (QueryCache_onOnline (queryCacheOf r c)) = 1)"
proof -
  have dm: "distinct (getMutationCaches r)" and dq: "distinct (getQueryCaches r)"
    by (simp_all add: getMutationCaches_def getQueryCaches_def distinct_uniq)
  have sm: "set (getMutationCaches r) = mutationCacheOf r ` set (mountedClients r)"
    and sq: "set (getQueryCaches r) = queryCacheOf r ` set (mountedClients r)"
    by (simp_all add: getMutationCaches_def getQueryCaches_def set_uniq)
  have df: "distinct (onFocus True r)"
    using dm dq by (auto simp: onFocus_def distinct_map inj_on_def)
  have do: "distinct (onOnline True r)"
    using dm dq by (auto simp: onOnline_def distinct_map inj_on_def)
  have once: "\<forall>c\<in>set (mountedClients r).
        count_list (onFocus True r) (MutationCache_onFocus (mutationCacheOf r c)) = 1
        \<and> count_list (onFocus True r) (QueryCache_onFocus (queryCacheOf r c)) = 1
        \<and> count_list (onOnline True r) (MutationCache_onOnline (mutationCacheOf r c)) = 1
        \<and> count_list (onOnline True r) (QueryCache_onOnline (queryCacheOf r c)) = 1"
  proof
    fix c assume c: "c \<in> set (mountedClients r)"
    have mf: "MutationCache_onFocus (mutationCacheOf r c) \<in> set (onFocus True r)"
      and qf: "QueryCache_onFocus (queryCacheOf r c) \<in> set (onFocus True r)"
      and mo: "MutationCache_onOnline (mutationCacheOf r c) \<in> set (onOnline True r)"
      and qo: "QueryCache_onOnline (queryCacheOf r c) \<in> set (onOnline True r)"
      using c sm sq by (auto simp: onFocus_def onOnline_def)
    from df do mf qf mo qo
    show "count_list (onFocus True r) (MutationCache_onFocus (mutationCacheOf r c)) = 1
        \<and> count_list (onFocus True r) (QueryCache_onFocus (queryCacheOf r c)) = 1
        \<and> count_list (onOnline True r) (MutationCache_onOnline (mutationCacheOf r c)) = 1
        \<and> count_list (onOnline True r) (QueryCache_onOnline (queryCacheOf r c)) = 1"
      by (simp add: count_list_distinct)
  qed
  show ?thesis
    using dm dq sm sq df do once by (simp add: onFocus_def onOnline_def)
qed

text \<open>
  Clients 0, 1 and 3 are mounted, client 1 twice; clients 0 and 3 share query cache 10.
\<close>

theorem focus_and_online_notify_each_cache_once_witness:
  "onFocus True (mount 3 (mount 1 (mount 0 (mount 1 example_registry))))
     = [MutationCache_onFocus 21, MutationCache_onFocus 20, MutationCache_onFocus 23,
        QueryCache_onFocus 11, QueryCache_onFocus 10]
   \<and> onOnline False (mount 3 (mount 1 (mount 0 (mount 1 example_registry)))) = []"
  using focus_and_online_notify_each_cache_once
    [of "mount 3 (mount 1 (mount 0 (mount 1 example_registry)))"]
  by (simp add: example_registry_def mount_def getMutationCaches_def getQueryCaches_def uniq_def)

end
